theory Spec2Isabelle
  imports Complex_Main "HOL-Library.AList" "HOL-Library.Sublist"
begin

section \<open>Follow-up tracker: age of a message and overdue thresholds\<close>

text \<open>
  Source: \<^verbatim>\<open>src/agent/lib/follow-up-tracker.ts\<close>.

  \<^verbatim>\<open>Date.now()\<close> and \<^verbatim>\<open>new Date(dateStr).getTime()\<close> are instants in
  milliseconds, integers of magnitude at most \<open>8.64 * 10^15\<close>. The second is \<^verbatim>\<open>NaN\<close>
  when the string is not a date; a JavaScript number that may be \<^verbatim>\<open>NaN\<close> is an
  \<open>int option\<close> here, \<open>None\<close> being \<^verbatim>\<open>NaN\<close>.

  The numbers of the source are doubles. Each instant is below \<open>2^53\<close> in magnitude
  and so is held exactly, but the difference of two instants need not be: the
  subtraction returns the double nearest to the exact difference, the one with the
  even significand when two are equally near. \<open>round_double\<close> is that rounding of an
  integer to 53 significant bits; it changes nothing up to \<open>2^53\<close>.

  The difference is below \<open>2^54\<close> in magnitude. For such a double \<open>x\<close> that is not a
  multiple of \<open>86400000\<close>, the quotient \<open>x / 86400000\<close> is at least \<open>1 / 86400000\<close>
  away from every integer, and at least twice as far when \<open>x\<close> is above \<open>2^53\<close> and
  therefore even, which is more than half the distance between neighbouring doubles
  at the size of the quotient (below \<open>2^27\<close> in the first case, below \<open>2^28\<close> in the
  second). The rounding of the division therefore never reaches an integer, and
  \<^verbatim>\<open>Math.floor(x / 86400000)\<close> is \<open>div\<close> on \<open>int\<close>, which rounds towards minus infinity
  as \<^verbatim>\<open>Math.floor\<close> does.
\<close>

datatype followup_type = needs_reply | awaiting_reply | needs_action

fun OVERDUE_THRESHOLDS :: "followup_type \<Rightarrow> int" where
  "OVERDUE_THRESHOLDS needs_reply = 1"
| "OVERDUE_THRESHOLDS awaiting_reply = 3"
| "OVERDUE_THRESHOLDS needs_action = 2"

definition ms_per_day :: int where
  "ms_per_day = 1000 * 60 * 60 * 24"

text \<open>The number of low bits that a natural number has beyond 53 significant bits.\<close>

function excess_bits :: "nat \<Rightarrow> nat" where
  "excess_bits a = (if a < 2 ^ 53 then 0 else Suc (excess_bits (a div 2)))"
  by pat_completeness auto
termination
  by (relation "measure id") auto

definition round_double :: "int \<Rightarrow> int" where
  "round_double x =
     (let a = nat \<bar>x\<bar>;
          e = excess_bits a;
          m = a div 2 ^ e;
          r = a mod 2 ^ e;
          m' = (if 2 * r > 2 ^ e \<or> (2 * r = 2 ^ e \<and> odd m) then m + 1 else m)
      in sgn x * int (m' * 2 ^ e))"

definition daysAgo :: "int \<Rightarrow> int option \<Rightarrow> int option" where
  "daysAgo now d =
     (case d of None \<Rightarrow> None | Some t \<Rightarrow> Some (round_double (now - t) div ms_per_day))"

text \<open>Every comparison with \<^verbatim>\<open>NaN\<close> is false.\<close>

definition isOverdue :: "followup_type \<Rightarrow> int \<Rightarrow> int option \<Rightarrow> bool" where
  "isOverdue ty now d =
     (case daysAgo now d of None \<Rightarrow> False | Some n \<Rightarrow> n > OVERDUE_THRESHOLDS ty)"

section \<open>Strings as the source's string operations see them\<close>

text \<open>
  A string is the list of its characters; the characters are those below 256, so the
  no-break space \<open>0xA0\<close> is one character and the separators beyond that range
  (\<^verbatim>\<open>U+2028\<close>, \<^verbatim>\<open>U+2029\<close>, the byte order mark) do not occur.
  \<open>is_line_terminator\<close> is what the regular expression's \<^verbatim>\<open>.\<close> refuses;
  \<open>is_space\<close> is what \<^verbatim>\<open>\s\<close> accepts and \<^verbatim>\<open>trim()\<close> strips.
\<close>

abbreviation LF :: char where
  "LF \<equiv> CHR 0x0A"

definition is_line_terminator :: "char \<Rightarrow> bool" where
  "is_line_terminator c \<longleftrightarrow> c = CHR 0x0A \<or> c = CHR 0x0D"

definition is_space :: "char \<Rightarrow> bool" where
  "is_space c \<longleftrightarrow>
     c = CHR 0x09 \<or> c = CHR 0x0A \<or> c = CHR 0x0B \<or> c = CHR 0x0C \<or> c = CHR 0x0D
     \<or> c = CHR 0x20 \<or> c = CHR 0xA0"

definition trim :: "string \<Rightarrow> string" where
  "trim s = rev (dropWhile is_space (rev (dropWhile is_space s)))"

text \<open>\<^verbatim>\<open>s.split("\n")\<close>: the pieces between the separators, at least one piece.\<close>

fun split_on :: "char \<Rightarrow> string \<Rightarrow> string list" where
  "split_on sep [] = [[]]"
| "split_on sep (c # cs) =
     (if c = sep then [] # split_on sep cs
      else (case split_on sep cs of [] \<Rightarrow> [[c]] | l # ls \<Rightarrow> (c # l) # ls))"

text \<open>\<^verbatim>\<open>lines.join("\n")\<close>.\<close>

fun join :: "string \<Rightarrow> string list \<Rightarrow> string" where
  "join sep [] = []"
| "join sep [l] = l"
| "join sep (l # ls) = l @ sep @ join sep ls"

text \<open>What follows a literal prefix of a pattern, if the text starts with it.\<close>

fun strip_prefix :: "string \<Rightarrow> string \<Rightarrow> string option" where
  "strip_prefix [] s = Some s"
| "strip_prefix (p # ps) [] = None"
| "strip_prefix (p # ps) (c # cs) = (if p = c then strip_prefix ps cs else None)"

text \<open>\<^verbatim>\<open>str.indexOf(pat)\<close> followed by \<^verbatim>\<open>str.slice(index + pat.length)\<close>: what follows
  the first occurrence of the pattern.\<close>

fun after_first :: "string \<Rightarrow> string \<Rightarrow> string option" where
  "after_first pat [] = (if pat = [] then Some [] else None)"
| "after_first pat (c # cs) =
     (case strip_prefix pat (c # cs) of Some r \<Rightarrow> Some r | None \<Rightarrow> after_first pat cs)"

text \<open>
  The lazy group \<^verbatim>\<open>(.+?)\<close> followed by a literal delimiter, where whatever follows the
  delimiter in the pattern cannot fail (an optional group, or the end of the pattern):
  the shortest non-empty run of characters other than line terminators after which the
  delimiter stands. The result is the run and the text after the delimiter.
\<close>

fun lazy_until :: "string \<Rightarrow> string \<Rightarrow> (string \<times> string) option" where
  "lazy_until delim [] = None"
| "lazy_until delim (c # cs) =
     (if is_line_terminator c then None
      else (case strip_prefix delim cs of
              Some r \<Rightarrow> Some ([c], r)
            | None \<Rightarrow> (case lazy_until delim cs of
                         None \<Rightarrow> None
                       | Some (t, r) \<Rightarrow> Some (c # t, r))))"

section \<open>The data model; the parser and the writer of the board file\<close>

text \<open>
  Source: \<^verbatim>\<open>vault-sync.ts\<close> (\<^verbatim>\<open>src/unnamed/part_004\<close>, lines 1 to 347).
  The statuses, assignees and priorities are the string unions of the source, with a
  capital initial. An item's \<^verbatim>\<open>date?: string\<close> is a \<open>string option\<close>; the empty string is a possible
  value in memory and is falsy, like \<^verbatim>\<open>undefined\<close>.
\<close>

datatype status = Backlog | Next | Working | Blocked | Done | Archived

datatype assignee = Me | Assistant

datatype priority = Low | Medium | High

record TaskFrontmatter =
  status :: status
  assignee :: assignee
  priority :: priority
  project :: "string option"
  due_date :: "string option"
  blocked_by :: "string option"
  follow_up_date :: "string option"
  created_at :: string
  completed_at :: "string option"
  tags :: "string list option"

record ParsedTask =
  filename :: string
  title :: string
  frontmatter :: TaskFrontmatter
  body :: string
  filePath :: string

text \<open>The field \<open>title\<close> of a board item is declared after that of a task, so the
  plain name \<open>title\<close> is the board item's and a task's title is \<open>ParsedTask.title\<close>.\<close>

record BoardItem =
  title :: string
  completed :: bool
  date :: "string option"

record BoardColumn =
  name :: string
  items :: "BoardItem list"

fun STATUS_TO_COLUMN :: "status \<Rightarrow> string option" where
  "STATUS_TO_COLUMN Backlog = Some ''Backlog''"
| "STATUS_TO_COLUMN Next = Some ''Next''"
| "STATUS_TO_COLUMN Working = Some ''Working''"
| "STATUS_TO_COLUMN Blocked = Some ''Blocked''"
| "STATUS_TO_COLUMN Done = Some ''Done''"
| "STATUS_TO_COLUMN Archived = Some ''Done''"

text \<open>\<^verbatim>\<open>STATUS_TO_COLUMN[status] || "Backlog"\<close>.\<close>

definition target_column :: "status \<Rightarrow> string" where
  "target_column s = (case STATUS_TO_COLUMN s of Some c \<Rightarrow> c | None \<Rightarrow> ''Backlog'')"

text \<open>
  \<^verbatim>\<open>matter(raw).content\<close> of the gray-matter library, which is not part of this
  repository: a text that opens with the delimiter \<^verbatim>\<open>---\<close> (not followed by a fourth
  dash) has a header, which ends at the first \<^verbatim>\<open>\n---\<close>; the content is what follows,
  less one leading carriage return and one leading line feed, and is empty when the
  header is never closed. A text without header is its own content. The library also
  decodes the header block; the board parser does not read the decoded data, and a
  header that the decoder rejects makes the library raise before the parser runs. The
  board primitives below are the calls that return; \<open>createTask\<close>, whose success is
  claimed, has the raise as a branch.
\<close>

definition matter_content :: "string \<Rightarrow> string" where
  "matter_content raw =
     (case strip_prefix ''---'' raw of
        None \<Rightarrow> raw
      | Some str \<Rightarrow>
          (if str \<noteq> [] \<and> hd str = CHR ''-'' then raw
           else (case after_first (LF # ''---'') str of
                   None \<Rightarrow> []
                 | Some r \<Rightarrow>
                     (let r1 = (case r of c # cs \<Rightarrow> if c = CHR 0x0D then cs else r | [] \<Rightarrow> r)
                      in (case r1 of c # cs \<Rightarrow> if c = LF then cs else r1 | [] \<Rightarrow> r1)))))"

text \<open>The column header \<^verbatim>\<open>/^## (.+)$/\<close>: the captured group.\<close>

definition match_column :: "string \<Rightarrow> string option" where
  "match_column line =
     (case strip_prefix ''## '' line of
        None \<Rightarrow> None
      | Some rest \<Rightarrow>
          if rest \<noteq> [] \<and> (\<forall>c \<in> set rest. \<not> is_line_terminator c) then Some rest else None)"

text \<open>The optional date group \<^verbatim>\<open>(?:\s*@\{(.+?)\})?\<close> on what follows the title.\<close>

definition match_date :: "string \<Rightarrow> string option" where
  "match_date r =
     (case strip_prefix [CHR ''@'', CHR ''{''] (dropWhile is_space r) of
        None \<Rightarrow> None
      | Some r' \<Rightarrow> (case lazy_until ''}'' r' of None \<Rightarrow> None | Some (d, _) \<Rightarrow> Some d))"

text \<open>The item line \<^verbatim>\<open>/^- \[([ x])\] \[\[(.+?)\]\](?:\s*@\{(.+?)\})?/\<close>: the three groups,
  as the parser stores them.\<close>

definition match_item :: "string \<Rightarrow> BoardItem option" where
  "match_item line =
     (case strip_prefix ''- ['' line of
        None \<Rightarrow> None
      | Some r1 \<Rightarrow>
          (case r1 of
             [] \<Rightarrow> None
           | c # r2 \<Rightarrow>
               if c \<noteq> CHR '' '' \<and> c \<noteq> CHR ''x'' then None
               else (case strip_prefix ''] [['' r2 of
                       None \<Rightarrow> None
                     | Some r3 \<Rightarrow>
                         (case lazy_until '']]'' r3 of
                            None \<Rightarrow> None
                          | Some (t, r4) \<Rightarrow>
                              Some \<lparr>title = t, completed = (c = CHR ''x''),
                                    date = match_date r4\<rparr>))))"

text \<open>\<^verbatim>\<open>if (currentColumn) columns.push(currentColumn)\<close>.\<close>

definition flush :: "BoardColumn list \<Rightarrow> BoardColumn option \<Rightarrow> BoardColumn list" where
  "flush columns cur = (case cur of None \<Rightarrow> columns | Some c \<Rightarrow> columns @ [c])"

text \<open>The loop of \<^verbatim>\<open>parseBoardFile\<close> over the lines, with its two variables.\<close>

fun parse_lines :: "BoardColumn list \<Rightarrow> BoardColumn option \<Rightarrow> string list \<Rightarrow> BoardColumn list" where
  "parse_lines columns cur [] = flush columns cur"
| "parse_lines columns cur (line # rest) =
     (case match_column line of
        Some n \<Rightarrow> parse_lines (flush columns cur) (Some \<lparr>name = trim n, items = []\<rparr>) rest
      | None \<Rightarrow>
          (case cur of
             None \<Rightarrow> parse_lines columns None rest
           | Some col \<Rightarrow>
               (case match_item line of
                  Some i \<Rightarrow> parse_lines columns (Some (col\<lparr>items := items col @ [i]\<rparr>)) rest
                | None \<Rightarrow> parse_lines columns (Some col) rest)))"

text \<open>The board file is \<open>None\<close> when it does not exist, else its text.\<close>

definition parseBoardFile :: "string option \<Rightarrow> BoardColumn list" where
  "parseBoardFile board =
     (case board of
        None \<Rightarrow> []
      | Some raw \<Rightarrow> parse_lines [] None (split_on LF (matter_content raw)))"

definition item_line :: "BoardItem \<Rightarrow> string" where
  "item_line i =
     ''- ['' @ (if completed i then ''x'' else '' '') @ ''] [['' @ title i @ '']]''
     @ (case date i of None \<Rightarrow> [] | Some d \<Rightarrow> if d = [] then [] else [CHR '' '', CHR ''@'', CHR ''{''] @ d @ ''}'')"

definition column_lines :: "BoardColumn \<Rightarrow> string list" where
  "column_lines col =
     [''## '' @ name col, []] @ map item_line (items col)
     @ (if name col = ''Done'' then [[], ''**Complete**''] else []) @ [[]]"

definition writeBoardFile :: "BoardColumn list \<Rightarrow> string" where
  "writeBoardFile columns =
     join [LF] ([''---'', ''kanban-plugin: basic'', ''---'', []] @ concat (map column_lines columns))"

section \<open>The board primitives\<close>

text \<open>\<^verbatim>\<open>ensureVaultStructure\<close> writes this text when the board file does not exist.\<close>

definition defaultBoard :: string where
  "defaultBoard =
     join [LF] [''---'', ''kanban-plugin: basic'', ''---'', [],
                ''## Backlog'', [], [],
                ''## Next'', [], [],
                ''## Working'', [], [],
                ''## Blocked'', [], [],
                ''## Done'', [], ''**Complete**'', []]"

text \<open>The first element that satisfies the test is replaced; the others stay.\<close>

fun update_first :: "('a \<Rightarrow> bool) \<Rightarrow> ('a \<Rightarrow> 'a) \<Rightarrow> 'a list \<Rightarrow> 'a list" where
  "update_first P f [] = []"
| "update_first P f (x # xs) = (if P x then f x # xs else x # update_first P f xs)"

text \<open>
  Every primitive reads the board file, changes the columns in memory and writes the file
  again; it takes the board file before and returns the board file after. The change to
  the columns is a function of its own, named after the primitive.

  In \<^verbatim>\<open>addToBoard\<close>, \<^verbatim>\<open>column\<close> is the object that \<^verbatim>\<open>columns.find\<close> returned or the one
  just pushed, so the push into \<^verbatim>\<open>column.items\<close> changes the first column of that name
  inside \<^verbatim>\<open>columns\<close>.
\<close>

definition push_item :: "string \<Rightarrow> status \<Rightarrow> string option \<Rightarrow> BoardColumn \<Rightarrow> BoardColumn" where
  "push_item t st dueDate column =
     (if \<exists>i \<in> set (items column). title i = t then column
      else column\<lparr>items := items column
             @ [\<lparr>title = t, completed = (st = Done \<or> st = Archived), date = dueDate\<rparr>]\<rparr>)"

definition addToBoard_columns ::
  "string \<Rightarrow> status \<Rightarrow> string option \<Rightarrow> BoardColumn list \<Rightarrow> BoardColumn list" where
  "addToBoard_columns t st dueDate columns =
     (let targetCol = target_column st;
          columns = (case find (\<lambda>c. name c = targetCol) columns of
                       Some c \<Rightarrow> columns
                     | None \<Rightarrow> columns @ [\<lparr>name = targetCol, items = []\<rparr>])
      in update_first (\<lambda>c. name c = targetCol) (push_item t st dueDate) columns)"

definition addToBoard :: "string option \<Rightarrow> string \<Rightarrow> status \<Rightarrow> string option \<Rightarrow> string option" where
  "addToBoard board t st dueDate =
     Some (writeBoardFile (addToBoard_columns t st dueDate (parseBoardFile board)))"

definition removeFromBoard_columns :: "string \<Rightarrow> BoardColumn list \<Rightarrow> BoardColumn list" where
  "removeFromBoard_columns t columns =
     map (\<lambda>col. col\<lparr>items := filter (\<lambda>i. title i \<noteq> t) (items col)\<rparr>) columns"

definition removeFromBoard :: "string option \<Rightarrow> string \<Rightarrow> string option" where
  "removeFromBoard board t =
     Some (writeBoardFile (removeFromBoard_columns t (parseBoardFile board)))"

definition moveOnBoard :: "string option \<Rightarrow> string \<Rightarrow> status \<Rightarrow> string option \<Rightarrow> string option" where
  "moveOnBoard board t newStatus dueDate =
     addToBoard (removeFromBoard board t) t newStatus dueDate"

definition renameOnBoard_columns :: "string \<Rightarrow> string \<Rightarrow> BoardColumn list \<Rightarrow> BoardColumn list" where
  "renameOnBoard_columns oldTitle newTitle columns =
     map (\<lambda>col. col\<lparr>items :=
            map (\<lambda>item. if title item = oldTitle then item\<lparr>title := newTitle\<rparr> else item)
              (items col)\<rparr>) columns"

definition renameOnBoard :: "string option \<Rightarrow> string \<Rightarrow> string \<Rightarrow> string option" where
  "renameOnBoard board oldTitle newTitle =
     Some (writeBoardFile (renameOnBoard_columns oldTitle newTitle (parseBoardFile board)))"

section \<open>What the board grammar can represent\<close>

text \<open>
  A title or a date is representable when the item pattern reads it back from the line
  the writer makes of it; a column name when the header pattern does. An absent or
  empty date is written as no date. \<open>norm_item\<close> is an item as the file holds it: the
  empty date is no date.
\<close>

definition title_ok :: "string \<Rightarrow> bool" where
  "title_ok t \<longleftrightarrow> lazy_until '']]'' (t @ '']]'') = Some (t, [])"

definition date_ok :: "string option \<Rightarrow> bool" where
  "date_ok d \<longleftrightarrow>
     (case d of None \<Rightarrow> True | Some s \<Rightarrow> s = [] \<or> lazy_until ''}'' (s @ ''}'') = Some (s, []))"

definition item_ok :: "BoardItem \<Rightarrow> bool" where
  "item_ok i \<longleftrightarrow> title_ok (title i) \<and> date_ok (date i)"

definition name_ok :: "string \<Rightarrow> bool" where
  "name_ok n \<longleftrightarrow> n \<noteq> [] \<and> list_all (\<lambda>c. \<not> is_line_terminator c) n \<and> trim n = n"

definition column_ok :: "BoardColumn \<Rightarrow> bool" where
  "column_ok col \<longleftrightarrow> name_ok (name col) \<and> list_all item_ok (items col)"

definition norm_date :: "string option \<Rightarrow> string option" where
  "norm_date d = (case d of None \<Rightarrow> None | Some s \<Rightarrow> if s = [] then None else Some s)"

definition norm_item :: "BoardItem \<Rightarrow> BoardItem" where
  "norm_item i = i\<lparr>date := norm_date (date i)\<rparr>"

definition norm_column :: "BoardColumn \<Rightarrow> BoardColumn" where
  "norm_column col = col\<lparr>items := map norm_item (items col)\<rparr>"

text \<open>A board file is well formed when every column header it holds names its column:
  no header is \<^verbatim>\<open>##\<close> followed by blanks only.\<close>

definition board_ok :: "string option \<Rightarrow> bool" where
  "board_ok board \<longleftrightarrow> list_all (\<lambda>col. name col \<noteq> []) (parseBoardFile board)"

text \<open>What every column that the parser returns satisfies, whatever the text.\<close>

definition column_parsed :: "BoardColumn \<Rightarrow> bool" where
  "column_parsed col \<longleftrightarrow>
     list_all (\<lambda>c. \<not> is_line_terminator c) (name col) \<and> trim (name col) = name col
     \<and> list_all (\<lambda>i. item_ok i \<and> date i \<noteq> Some []) (items col)"

text \<open>Where a title is on a board: the columns that hold an item with it, how many
  items of a column have it, and how many the column of a status has (the first column
  of that name, which is the one \<^verbatim>\<open>columns.find\<close> returns).\<close>

definition holds :: "string \<Rightarrow> BoardColumn \<Rightarrow> bool" where
  "holds t col \<longleftrightarrow> (\<exists>i \<in> set (items col). title i = t)"

definition holder_names :: "string \<Rightarrow> BoardColumn list \<Rightarrow> string list" where
  "holder_names t columns = map name (filter (holds t) columns)"

definition count_title :: "string \<Rightarrow> BoardColumn \<Rightarrow> nat" where
  "count_title t col = length (filter (\<lambda>i. title i = t) (items col))"

definition count_on_board :: "string \<Rightarrow> BoardColumn list \<Rightarrow> nat" where
  "count_on_board t columns = sum_list (map (count_title t) columns)"

definition count_in_target :: "string \<Rightarrow> status \<Rightarrow> BoardColumn list \<Rightarrow> nat" where
  "count_in_target t st columns =
     (case find (\<lambda>c. name c = target_column st) columns of
        None \<Rightarrow> 0
      | Some col \<Rightarrow> count_title t col)"

text \<open>A board text used to exercise the theorems: a header, two columns, a line that is
  neither a header nor an item, and the marker of the Done column.\<close>

definition example_board :: string where
  "example_board =
     join [LF] [''---'', ''kanban-plugin: basic'', ''---'', [],
                ''## Backlog'', ''- [ ] [[Write report]] @'' @ ''{2026-02-20}'', ''a note'',
                ''- [ ] [[Call Ann]]'',
                ''## Done'', ''- [x] [[Pay rent]]'', [], ''**Complete**'', []]"

section \<open>The vault: task files and the board file\<close>

text \<open>
  A task file is read and written through the gray-matter library only, so it is
  modelled by what the library decodes from it: the header data, as the partial
  frontmatter the source casts it to, and the content. \<^verbatim>\<open>matter.stringify\<close> followed by
  \<^verbatim>\<open>matter\<close> is taken to give back the data and the content that were written.

  The vault is the tasks folder with the default layout of \<^verbatim>\<open>getDefaultVaultConfig\<close>:
  \<open>task_files\<close> are the regular files of the folder other than the board, by name, in
  the order \<^verbatim>\<open>readdirSync\<close> lists them (a folder that does not exist yet lists none),
  and \<open>board_file\<close> is the text of the entry \<^verbatim>\<open>Board.md\<close> of the same folder. A path
  inside the folder is the file name.

  The board file is kept as text, and the task operations reach it as a task file too
  when a task is titled \<^verbatim>\<open>Board\<close>. The library and the file system are not part of the
  source; what the operations need from them is given by the four functions of
  \<open>Platform\<close>: \<open>decodes raw\<close> says that the YAML decoder accepts the header block of the
  text, so that \<^verbatim>\<open>matter(raw)\<close> returns (it raises otherwise); \<open>decode_data raw\<close> is the
  data it returns, cast as the source casts it; \<open>stringify f\<close> is the text that
  \<^verbatim>\<open>matter.stringify\<close> writes for a content and a data object; \<open>writable name\<close> says that
  the file system accepts a file of this name in the folder, so that \<^verbatim>\<open>writeFileSync\<close>
  returns (a name with a NUL character or a name that is too long makes it raise, and
  \<^verbatim>\<open>existsSync\<close> answers false for such a name). The content of a text is
  \<open>matter_content\<close>. File names are compared character by character. Every function
  below that reads or writes a task file takes the platform as its first argument, and
  every theorem holds for every platform.
\<close>

record TaskData =
  data_status :: "status option"
  data_assignee :: "assignee option"
  data_priority :: "priority option"
  data_project :: "string option"
  data_due_date :: "string option"
  data_blocked_by :: "string option"
  data_follow_up_date :: "string option"
  data_created_at :: "string option"
  data_completed_at :: "string option"
  data_tags :: "string list option"

record MatterFile =
  data :: TaskData
  content :: string

record Vault =
  task_files :: "(string \<times> MatterFile) list"
  board_file :: "string option"

record Platform =
  decodes :: "string \<Rightarrow> bool"
  decode_data :: "string \<Rightarrow> TaskData"
  stringify :: "MatterFile \<Rightarrow> string"
  writable :: "string \<Rightarrow> bool"

text \<open>\<^verbatim>\<open>x || undefined\<close> on an optional string: the empty string is falsy.\<close>

definition truthy :: "string option \<Rightarrow> string option" where
  "truthy x = (case x of None \<Rightarrow> None | Some s \<Rightarrow> if s = [] then None else Some s)"

text \<open>\<^verbatim>\<open>x || d\<close> on an optional value that is truthy whenever present.\<close>

definition or_default :: "'a option \<Rightarrow> 'a \<Rightarrow> 'a" where
  "or_default x d = (case x of None \<Rightarrow> d | Some y \<Rightarrow> y)"

definition existsSync :: "Vault \<Rightarrow> string \<Rightarrow> bool" where
  "existsSync v file =
     (if file = ''Board.md'' then board_file v \<noteq> None else map_of (task_files v) file \<noteq> None)"

definition ensureVaultStructure :: "Vault \<Rightarrow> Vault" where
  "ensureVaultStructure v =
     (case board_file v of None \<Rightarrow> v\<lparr>board_file := Some defaultBoard\<rparr> | Some b \<Rightarrow> v)"

text \<open>\<^verbatim>\<open>path.basename(filePath, ".md")\<close>: the extension is removed from a longer name.\<close>

definition basename_md :: "string \<Rightarrow> string" where
  "basename_md file =
     (if suffix ''.md'' file \<and> file \<noteq> ''.md'' then take (length file - 3) file else file)"

text \<open>
  \<^verbatim>\<open>matter(fs.readFileSync(filePath))\<close> on a path of the folder: the file as the library
  decodes it, \<open>None\<close> when there is no such file.
\<close>

definition read_matter :: "Platform \<Rightarrow> Vault \<Rightarrow> string \<Rightarrow> MatterFile option" where
  "read_matter env v file =
     (if file = ''Board.md''
      then (case board_file v of
              None \<Rightarrow> None
            | Some raw \<Rightarrow> Some \<lparr>data = decode_data env raw, content = matter_content raw\<rparr>)
      else map_of (task_files v) file)"

text \<open>\<^verbatim>\<open>parseTaskFile\<close>; \<open>now\<close> is \<^verbatim>\<open>new Date().toISOString()\<close>.\<close>

definition parseTaskFile :: "Platform \<Rightarrow> string \<Rightarrow> Vault \<Rightarrow> string \<Rightarrow> ParsedTask option" where
  "parseTaskFile env now v file =
     (case read_matter env v file of
        None \<Rightarrow> None
      | Some parsed \<Rightarrow>
          (let fm = data parsed
           in Some \<lparr>filename = basename_md file,
                    title = basename_md file,
                    frontmatter =
                      \<lparr>status = or_default (data_status fm) Backlog,
                       assignee = or_default (data_assignee fm) Me,
                       priority = or_default (data_priority fm) Medium,
                       project = truthy (data_project fm),
                       due_date = truthy (data_due_date fm),
                       blocked_by = truthy (data_blocked_by fm),
                       follow_up_date = truthy (data_follow_up_date fm),
                       created_at = or_default (truthy (data_created_at fm)) now,
                       completed_at = truthy (data_completed_at fm),
                       tags = Some (or_default (data_tags fm) [])\<rparr>,
                    body = trim (content parsed),
                    filePath = file\<rparr>))"

definition writeTaskFile ::
  "Platform \<Rightarrow> Vault \<Rightarrow> string \<Rightarrow> TaskFrontmatter \<Rightarrow> string \<Rightarrow> Vault" where
  "writeTaskFile env v file fm body' =
     (let cleanFm =
            \<lparr>data_status = Some (status fm),
             data_assignee = Some (assignee fm),
             data_priority = Some (priority fm),
             data_project = truthy (project fm),
             data_due_date = truthy (due_date fm),
             data_blocked_by = truthy (blocked_by fm),
             data_follow_up_date = truthy (follow_up_date fm),
             data_created_at = Some (created_at fm),
             data_completed_at = truthy (completed_at fm),
             data_tags = (case tags fm of None \<Rightarrow> None
                          | Some ts \<Rightarrow> if ts = [] then None else Some ts)\<rparr>;
          output = \<lparr>data = cleanFm,
                    content = (if body' \<noteq> [] then [LF] @ body' @ [LF] else [LF])\<rparr>
      in if file = ''Board.md'' then v\<lparr>board_file := Some (stringify env output)\<rparr>
         else v\<lparr>task_files := AList.update file output (task_files v)\<rparr>)"

text \<open>\<^verbatim>\<open>fs.unlinkSync\<close> on a path of the folder.\<close>

definition unlinkSync :: "Vault \<Rightarrow> string \<Rightarrow> Vault" where
  "unlinkSync v file =
     (if file = ''Board.md'' then v\<lparr>board_file := None\<rparr>
      else v\<lparr>task_files := AList.delete file (task_files v)\<rparr>)"

definition listTaskFiles :: "Platform \<Rightarrow> string \<Rightarrow> Vault \<Rightarrow> ParsedTask list" where
  "listTaskFiles env now v =
     List.map_filter
       (\<lambda>file. if \<not> suffix ''.md'' file \<or> file = ''Board.md'' then None
               else parseTaskFile env now v file)
       (map fst (task_files v))"

text \<open>\<^verbatim>\<open>sanitizeFilename\<close>: the characters \<^verbatim>\<open><>:"/\|?*\<close> are removed, every run of white
  space becomes one space, and the result is trimmed.\<close>

function collapse_spaces :: "string \<Rightarrow> string" where
  "collapse_spaces [] = []"
| "collapse_spaces (c # cs) =
     (if is_space c then CHR '' '' # collapse_spaces (dropWhile is_space cs)
      else c # collapse_spaces cs)"
  by pat_completeness auto
termination
  by (relation "measure length") (auto simp: length_dropWhile_le less_Suc_eq_le)

definition sanitizeFilename :: "string \<Rightarrow> string" where
  "sanitizeFilename t =
     trim (collapse_spaces
       (filter (\<lambda>c. c \<notin> set [CHR ''<'', CHR ''>'', CHR '':'', CHR 0x22, CHR ''/'', CHR 0x5C,
                                CHR ''|'', CHR ''?'', CHR ''*'']) t))"

section \<open>Reconciliation of the board with the task files\<close>

text \<open>The titles on a board, column after column; \<^verbatim>\<open>boardTitles\<close> is the set of them.\<close>

definition board_titles :: "BoardColumn list \<Rightarrow> string list" where
  "board_titles columns = concat (map (\<lambda>col. map title (items col)) columns)"

text \<open>
  The body of the loop over the tasks, and the loop. The state is the board file and
  the two counters. \<^verbatim>\<open>currentCol\<close> is the name of the first column of the board, read
  again, that holds the title; \<^verbatim>\<open>null\<close> and the empty name are both falsy.
\<close>

fun sync_task ::
  "string list \<Rightarrow> ParsedTask \<Rightarrow> string option \<times> nat \<times> nat \<Rightarrow> string option \<times> nat \<times> nat" where
  "sync_task boardTitles task (board, added, moved) =
     (if ParsedTask.title task \<notin> set boardTitles
      then (addToBoard board (ParsedTask.title task) (status (frontmatter task))
              (due_date (frontmatter task)), added + 1, moved)
      else
        (let expectedCol = target_column (status (frontmatter task));
             refreshedColumns = parseBoardFile board;
             currentCol = map_option name (find (holds (ParsedTask.title task)) refreshedColumns)
         in (case currentCol of
               None \<Rightarrow> (board, added, moved)
             | Some c \<Rightarrow>
                 if c \<noteq> [] \<and> c \<noteq> expectedCol
                 then (moveOnBoard board (ParsedTask.title task) (status (frontmatter task))
                         (due_date (frontmatter task)), added, moved + 1)
                 else (board, added, moved))))"

fun sync_tasks ::
  "string list \<Rightarrow> ParsedTask list \<Rightarrow> string option \<times> nat \<times> nat \<Rightarrow> string option \<times> nat \<times> nat" where
  "sync_tasks boardTitles [] s = s"
| "sync_tasks boardTitles (task # tasks) s = sync_tasks boardTitles tasks (sync_task boardTitles task s)"

text \<open>The loop over the items of \<^verbatim>\<open>finalColumns\<close>, given by their titles in order.\<close>

fun prune_orphans :: "string list \<Rightarrow> string list \<Rightarrow> string option \<times> nat \<Rightarrow> string option \<times> nat" where
  "prune_orphans fileTitles [] s = s"
| "prune_orphans fileTitles (t # ts) (board, removed) =
     (if t \<notin> set fileTitles
      then prune_orphans fileTitles ts (removeFromBoard board t, removed + 1)
      else prune_orphans fileTitles ts (board, removed))"

record SyncCounts =
  added :: nat
  moved :: nat
  removed :: nat

definition syncBoardWithFiles :: "Platform \<Rightarrow> string \<Rightarrow> Vault \<Rightarrow> SyncCounts \<times> Vault" where
  "syncBoardWithFiles env now v0 =
     (let v = ensureVaultStructure v0;
          tasks = listTaskFiles env now v;
          columns = parseBoardFile (board_file v);
          boardTitles = board_titles columns;
          fileTitles = map ParsedTask.title tasks;
          (board, added', moved') = sync_tasks boardTitles tasks (board_file v, 0, 0);
          finalColumns = parseBoardFile board;
          (board, removed') = prune_orphans fileTitles (board_titles finalColumns) (board, 0)
      in (\<lparr>added = added', moved = moved', removed = removed'\<rparr>, v\<lparr>board_file := board\<rparr>))"

section \<open>Vaults used to exercise the theorems\<close>

text \<open>A header that sets no field of a task, and a file with such a header.\<close>

definition no_data :: TaskData where
  "no_data =
     \<lparr>data_status = None, data_assignee = None, data_priority = None, data_project = None,
      data_due_date = None, data_blocked_by = None, data_follow_up_date = None,
      data_created_at = None, data_completed_at = None, data_tags = None\<rparr>"

text \<open>A platform that accepts every header, reads no field of a task from a text,
  writes the content alone, and accepts the file names without NUL character of at
  most 255 characters.\<close>

definition example_env :: Platform where
  "example_env =
     \<lparr>decodes = (\<lambda>raw. True), decode_data = (\<lambda>raw. no_data), stringify = content,
      writable = (\<lambda>name. CHR 0x00 \<notin> set name \<and> length name \<le> 255)\<rparr>"

definition example_now :: string where
  "example_now = ''2026-02-21T09:00:00.000Z''"

text \<open>Three tasks and a file that is no task, with \<open>example_board\<close>: one task is in the
  wrong column, one is not on the board, and the board holds an orphan.\<close>

definition example_vault :: Vault where
  "example_vault =
     \<lparr>task_files =
        [(''Write report.md'',
            \<lparr>data = no_data\<lparr>data_status := Some Next, data_due_date := Some ''2026-02-20''\<rparr>,
             content = [LF] @ ''Quarterly numbers'' @ [LF]\<rparr>),
         (''Call Ann.md'', \<lparr>data = no_data, content = [LF]\<rparr>),
         (''notes.txt'', \<lparr>data = no_data, content = ''not a task''\<rparr>),
         (''Plan trip.md'',
            \<lparr>data = no_data\<lparr>data_status := Some Working,
                              data_completed_at := Some ''2026-01-05T10:00:00.000Z''\<rparr>,
             content = [LF]\<rparr>)],
      board_file = Some example_board\<rparr>"

text \<open>One task, which the board holds in two columns.\<close>

definition duplicate_vault :: Vault where
  "duplicate_vault =
     \<lparr>task_files = [(''A.md'', \<lparr>data = no_data, content = [LF]\<rparr>)],
      board_file = Some (join [LF] [''## Backlog'', ''- [ ] [[A]]'', ''## Next'', ''- [ ] [[A]]''])\<rparr>"

section \<open>Task operations\<close>

text \<open>
  Source: \<^verbatim>\<open>vault-tasks.ts\<close> (\<^verbatim>\<open>src/unnamed/part_004\<close>, lines 619 to 961). An operation
  takes the platform, the clock reading \<open>now\<close> (\<^verbatim>\<open>new Date().toISOString()\<close>), the vault
  and its parameters, and returns its result payload and the vault after. \<^verbatim>\<open>jsonResult\<close>
  wraps a payload; the payloads are the constructors of \<open>ToolResult\<close>, and \<^verbatim>\<open>taskToRecord\<close>
  copies the fields of the task it is given.
\<close>

datatype task_payload = TaskRecord ParsedTask | TitleOnly string

datatype ToolResult = ErrorResult string | CreatedResult task_payload | UpdatedResult task_payload

text \<open>A call returns a value or raises.\<close>

datatype 'a outcome = Returned 'a | Raised

text \<open>
  Reading the board with \<^verbatim>\<open>parseBoardFile\<close> raises when the file exists and the decoder
  refuses its header block.
\<close>

definition board_decodes :: "Platform \<Rightarrow> string option \<Rightarrow> bool" where
  "board_decodes env board = (case board of None \<Rightarrow> True | Some raw \<Rightarrow> decodes env raw)"

text \<open>\<^verbatim>\<open>toLowerCase\<close> on the characters below 256.\<close>

definition to_lower :: "char \<Rightarrow> char" where
  "to_lower c =
     (let n = (of_char c :: nat)
      in if (65 \<le> n \<and> n \<le> 90) \<or> (192 \<le> n \<and> n \<le> 222 \<and> n \<noteq> 215) then char_of (n + 32) else c)"

definition findTaskByTitle :: "Platform \<Rightarrow> string \<Rightarrow> Vault \<Rightarrow> string \<Rightarrow> ParsedTask option" where
  "findTaskByTitle env now v taskId =
     (let sanitized = sanitizeFilename taskId;
          directPath = sanitized @ ''.md''
      in if existsSync v directPath then parseTaskFile env now v directPath
         else find (\<lambda>t. map to_lower (ParsedTask.title t) = map to_lower taskId)
                (listTaskFiles env now v))"

record CreateParams =
  c_title :: string
  c_description :: "string option"
  c_assignee :: "assignee option"
  c_status :: "status option"
  c_priority :: "priority option"
  c_project :: "string option"
  c_dueDate :: "string option"
  c_blockedBy :: "string option"
  c_followUpDate :: "string option"

text \<open>
  \<^verbatim>\<open>createTask\<close>. The already-exists error is a returned payload. The call raises in
  \<^verbatim>\<open>writeTaskFile\<close>, with nothing written, when the file system refuses the name of the
  task file. After the task file is written, \<^verbatim>\<open>addToBoard\<close> reads the board file, and the
  call raises there, with the task file written and the board as it was, when the
  decoder refuses the board's header.
\<close>

definition createTask ::
  "Platform \<Rightarrow> string \<Rightarrow> Vault \<Rightarrow> CreateParams \<Rightarrow> ToolResult outcome \<times> Vault" where
  "createTask env now v0 params =
     (let v = ensureVaultStructure v0;
          t = sanitizeFilename (c_title params);
          file = t @ ''.md''
      in if existsSync v file
         then (Returned (ErrorResult (''Task '' @ [CHR 0x22] @ t @ [CHR 0x22] @ '' already exists'')), v)
         else if \<not> writable env file then (Raised, v)
         else
           (let fm = \<lparr>status = or_default (c_status params) Backlog,
                      assignee = or_default (c_assignee params) Me,
                      priority = or_default (c_priority params) Medium,
                      project = c_project params,
                      due_date = c_dueDate params,
                      blocked_by = c_blockedBy params,
                      follow_up_date = c_followUpDate params,
                      created_at = now,
                      completed_at = None,
                      tags = Some []\<rparr>;
                v = writeTaskFile env v file fm (or_default (c_description params) [])
            in if \<not> board_decodes env (board_file v) then (Raised, v)
               else
                 (let v = v\<lparr>board_file := addToBoard (board_file v) t (status fm) (c_dueDate params)\<rparr>
                  in (Returned (CreatedResult (case parseTaskFile env now v file of
                                                 Some task \<Rightarrow> TaskRecord task
                                               | None \<Rightarrow> TitleOnly t)), v))))"

record UpdateParams =
  u_taskId :: string
  u_title :: "string option"
  u_description :: "string option"
  u_assignee :: "assignee option"
  u_status :: "status option"
  u_priority :: "priority option"
  u_project :: "string option"
  u_dueDate :: "string option"
  u_blockedBy :: "string option"
  u_followUpDate :: "string option"

text \<open>
  \<^verbatim>\<open>updateTask\<close>. A parameter that is \<^verbatim>\<open>undefined\<close> is \<open>None\<close>; a string parameter tested
  for truth (\<^verbatim>\<open>params.title && ...\<close>) must also be non-empty. What is modelled is the
  call that returns: the file system accepts the name it writes, and the board file,
  when the update reads it, has a header that the decoder accepts.
\<close>

definition updateTask ::
  "Platform \<Rightarrow> string \<Rightarrow> Vault \<Rightarrow> UpdateParams \<Rightarrow> ToolResult \<times> Vault" where
  "updateTask env now v params =
     (case findTaskByTitle env now v (u_taskId params) of
        None \<Rightarrow>
          (ErrorResult (''Task '' @ [CHR 0x22] @ u_taskId params @ [CHR 0x22] @ '' not found''), v)
      | Some task \<Rightarrow>
          (let fm = frontmatter task;
               fm = (case u_assignee params of None \<Rightarrow> fm | Some a \<Rightarrow> fm\<lparr>assignee := a\<rparr>);
               fm = (case u_status params of None \<Rightarrow> fm | Some s \<Rightarrow> fm\<lparr>status := s\<rparr>);
               fm = (case u_priority params of None \<Rightarrow> fm | Some p \<Rightarrow> fm\<lparr>priority := p\<rparr>);
               fm = (case u_project params of None \<Rightarrow> fm
                     | Some p \<Rightarrow> fm\<lparr>project := truthy (Some p)\<rparr>);
               fm = (case u_dueDate params of None \<Rightarrow> fm
                     | Some d \<Rightarrow> fm\<lparr>due_date := truthy (Some d)\<rparr>);
               fm = (case u_blockedBy params of None \<Rightarrow> fm
                     | Some b \<Rightarrow> fm\<lparr>blocked_by := truthy (Some b)\<rparr>);
               fm = (case u_followUpDate params of None \<Rightarrow> fm
                     | Some f \<Rightarrow> fm\<lparr>follow_up_date := truthy (Some f)\<rparr>);
               body' = (case u_description params of None \<Rightarrow> body task | Some d \<Rightarrow> d);
               fm = (if u_status params = Some Done \<and> truthy (completed_at fm) = None
                     then fm\<lparr>completed_at := Some now\<rparr> else fm);
               oldTitle = ParsedTask.title task;
               renamed = (truthy (u_title params) \<noteq> None \<and> u_title params \<noteq> Some oldTitle);
               newTitle = sanitizeFilename (or_default (u_title params) []);
               (v, currentPath) =
                 (if renamed
                  then (let v = writeTaskFile env v (newTitle @ ''.md'') fm body';
                            v = unlinkSync v (filePath task);
                            v = v\<lparr>board_file := renameOnBoard (board_file v) oldTitle newTitle\<rparr>
                        in (v, newTitle @ ''.md''))
                  else (writeTaskFile env v (filePath task) fm body', filePath task));
               v = (case u_status params of
                      None \<Rightarrow> v
                    | Some s \<Rightarrow>
                        if s \<noteq> status (frontmatter task)
                        then v\<lparr>board_file :=
                               moveOnBoard (board_file v)
                                 (if truthy (u_title params) \<noteq> None then newTitle else oldTitle)
                                 (status fm) (due_date fm)\<rparr>
                        else v)
           in (UpdatedResult (case parseTaskFile env now v currentPath of
                                Some updated \<Rightarrow> TaskRecord updated
                              | None \<Rightarrow> TitleOnly (u_taskId params)), v)))"

text \<open>\<^verbatim>\<open>completeTask\<close> is \<^verbatim>\<open>updateTask\<close> with the status done and nothing else.\<close>

definition status_only :: "string \<Rightarrow> status \<Rightarrow> UpdateParams" where
  "status_only taskId st =
     \<lparr>u_taskId = taskId, u_title = None, u_description = None, u_assignee = None,
      u_status = Some st, u_priority = None, u_project = None, u_dueDate = None,
      u_blockedBy = None, u_followUpDate = None\<rparr>"

definition completeTask :: "Platform \<Rightarrow> string \<Rightarrow> Vault \<Rightarrow> string \<Rightarrow> ToolResult \<times> Vault" where
  "completeTask env now v taskId = updateTask env now v (status_only taskId Done)"

text \<open>What \<^verbatim>\<open>parseTaskFile\<close> reads as \<^verbatim>\<open>completed_at\<close> from the task file at a path.\<close>

definition completed_at_of :: "Platform \<Rightarrow> string \<Rightarrow> Vault \<Rightarrow> string \<Rightarrow> string option" where
  "completed_at_of env now v file =
     (case parseTaskFile env now v file of
        None \<Rightarrow> None
      | Some task \<Rightarrow> completed_at (frontmatter task))"

text \<open>Parameters of a create call that give the title only.\<close>

definition title_only :: "string \<Rightarrow> CreateParams" where
  "title_only t =
     \<lparr>c_title = t, c_description = None, c_assignee = None, c_status = None,
      c_priority = None, c_project = None, c_dueDate = None, c_blockedBy = None,
      c_followUpDate = None\<rparr>"

section \<open>Parsing a task file, on the values the decoder returns\<close>

text \<open>
  The types of \<open>TaskFrontmatter\<close> are erased when the program runs: the header of a
  file may hold any YAML value under any key, and \<^verbatim>\<open>parseTaskFile\<close> (lines 107 to 132)
  passes on what it finds. This section models the function on those values. A value
  is what the YAML decoder of the library can return: null, a boolean, a number
  (finite, infinite or \<^verbatim>\<open>NaN\<close>), a string, a date, binary data, a sequence or a
  mapping. \<open>JNull\<close> stands for \<^verbatim>\<open>undefined\<close> as well, which behaves as null does here.
\<close>

datatype js_value =
    JNull
  | JBool bool
  | JNum real
  | JInfinity bool
  | JNaN
  | JStr string
  | JDate int
  | JBinary string
  | JArray "js_value list"
  | JObject "(string \<times> js_value) list"

text \<open>Truthiness: \<^verbatim>\<open>null\<close>, \<^verbatim>\<open>false\<close>, zero, \<^verbatim>\<open>NaN\<close> and the empty string are falsy, every
  other value is truthy.\<close>

fun js_truthy :: "js_value \<Rightarrow> bool" where
  "js_truthy JNull = False"
| "js_truthy (JBool b) = b"
| "js_truthy (JNum x) = (x \<noteq> 0)"
| "js_truthy JNaN = False"
| "js_truthy (JStr s) = (s \<noteq> [])"
| "js_truthy (JInfinity b) = True"
| "js_truthy (JDate t) = True"
| "js_truthy (JBinary b) = True"
| "js_truthy (JArray xs) = True"
| "js_truthy (JObject kvs) = True"

text \<open>
  \<^verbatim>\<open>fm.key\<close> for one of the ten keys that \<^verbatim>\<open>parseTaskFile\<close> reads, on a value other than
  null: a mapping has the property when it has the key, and no other value has a
  property of these names; \<open>None\<close> is \<^verbatim>\<open>undefined\<close>.
\<close>

fun js_property :: "js_value \<Rightarrow> string \<Rightarrow> js_value option" where
  "js_property (JObject kvs) key = map_of kvs key"
| "js_property other key = None"

text \<open>\<^verbatim>\<open>x || d\<close> and \<^verbatim>\<open>x || undefined\<close>.\<close>

definition js_or :: "js_value option \<Rightarrow> js_value \<Rightarrow> js_value" where
  "js_or x d = (case x of None \<Rightarrow> d | Some y \<Rightarrow> if js_truthy y then y else d)"

definition js_or_undefined :: "js_value option \<Rightarrow> js_value option" where
  "js_or_undefined x = (case x of None \<Rightarrow> None | Some y \<Rightarrow> if js_truthy y then Some y else None)"

record FrontmatterValues =
  status_value :: js_value
  assignee_value :: js_value
  priority_value :: js_value
  project_value :: "js_value option"
  due_date_value :: "js_value option"
  blocked_by_value :: "js_value option"
  follow_up_date_value :: "js_value option"
  created_at_value :: js_value
  completed_at_value :: "js_value option"
  tags_value :: js_value

record ParsedValues =
  filename_value :: string
  title_value :: string
  frontmatter_value :: FrontmatterValues
  body_value :: string
  filePath_value :: string

text \<open>What is at a path: a regular file with its text, or a directory.\<close>

datatype fs_entry = RegularFile string | Directory

text \<open>
  \<^verbatim>\<open>parseTaskFile\<close> on a path. \<open>entry\<close> is what is at the path, \<open>None\<close> when nothing is;
  \<^verbatim>\<open>readFileSync\<close> raises on a directory. \<open>decode raw\<close> is the data of \<^verbatim>\<open>matter(raw)\<close>:
  \<open>None\<close> when the decoder refuses the header block, so that \<^verbatim>\<open>matter\<close> raises; the
  empty mapping when the text has no header block or a blank one. The first property
  read on null raises a \<^verbatim>\<open>TypeError\<close>; no other value makes a property read raise. The
  path is the name of the file in its folder.
\<close>

definition parseTaskFile_values ::
  "(string \<Rightarrow> js_value option) \<Rightarrow> string \<Rightarrow> string \<Rightarrow> fs_entry option
     \<Rightarrow> ParsedValues option outcome" where
  "parseTaskFile_values decode now filePath' entry =
     (case entry of
        None \<Rightarrow> Returned None
      | Some Directory \<Rightarrow> Raised
      | Some (RegularFile raw) \<Rightarrow>
          (case decode raw of
             None \<Rightarrow> Raised
           | Some fm \<Rightarrow>
               if fm = JNull then Raised
               else Returned (Some
                 \<lparr>filename_value = basename_md filePath',
                  title_value = basename_md filePath',
                  frontmatter_value =
                    \<lparr>status_value = js_or (js_property fm ''status'') (JStr ''backlog''),
                     assignee_value = js_or (js_property fm ''assignee'') (JStr ''me''),
                     priority_value = js_or (js_property fm ''priority'') (JStr ''medium''),
                     project_value = js_or_undefined (js_property fm ''project''),
                     due_date_value = js_or_undefined (js_property fm ''due_date''),
                     blocked_by_value = js_or_undefined (js_property fm ''blocked_by''),
                     follow_up_date_value = js_or_undefined (js_property fm ''follow_up_date''),
                     created_at_value = js_or (js_property fm ''created_at'') (JStr now),
                     completed_at_value = js_or_undefined (js_property fm ''completed_at''),
                     tags_value = js_or (js_property fm ''tags'') (JArray [])\<rparr>,
                  body_value = trim (matter_content raw),
                  filePath_value = filePath'\<rparr>)))"

text \<open>
  The typed model of the earlier sections is this function on headers that hold, under
  the ten keys, values of the types that \<open>TaskFrontmatter\<close> declares. \<open>holds_data d fm\<close>
  says that the decoded header \<open>fm\<close> holds the typed data \<open>d\<close>, and \<open>values_of_task\<close> is
  a typed task as values.
\<close>

fun status_string :: "status \<Rightarrow> string" where
  "status_string Backlog = ''backlog''"
| "status_string Next = ''next''"
| "status_string Working = ''working''"
| "status_string Blocked = ''blocked''"
| "status_string Done = ''done''"
| "status_string Archived = ''archived''"

fun assignee_string :: "assignee \<Rightarrow> string" where
  "assignee_string Me = ''me''"
| "assignee_string Assistant = ''assistant''"

fun priority_string :: "priority \<Rightarrow> string" where
  "priority_string Low = ''low''"
| "priority_string Medium = ''medium''"
| "priority_string High = ''high''"

definition holds_data :: "TaskData \<Rightarrow> js_value \<Rightarrow> bool" where
  "holds_data d fm \<longleftrightarrow>
     fm \<noteq> JNull
     \<and> js_property fm ''status'' = map_option (\<lambda>x. JStr (status_string x)) (data_status d)
     \<and> js_property fm ''assignee'' = map_option (\<lambda>x. JStr (assignee_string x)) (data_assignee d)
     \<and> js_property fm ''priority'' = map_option (\<lambda>x. JStr (priority_string x)) (data_priority d)
     \<and> js_property fm ''project'' = map_option JStr (data_project d)
     \<and> js_property fm ''due_date'' = map_option JStr (data_due_date d)
     \<and> js_property fm ''blocked_by'' = map_option JStr (data_blocked_by d)
     \<and> js_property fm ''follow_up_date'' = map_option JStr (data_follow_up_date d)
     \<and> js_property fm ''created_at'' = map_option JStr (data_created_at d)
     \<and> js_property fm ''completed_at'' = map_option JStr (data_completed_at d)
     \<and> js_property fm ''tags'' = map_option (\<lambda>ts. JArray (map JStr ts)) (data_tags d)"

definition values_of_task :: "ParsedTask \<Rightarrow> ParsedValues" where
  "values_of_task task =
     \<lparr>filename_value = filename task,
      title_value = ParsedTask.title task,
      frontmatter_value =
        \<lparr>status_value = JStr (status_string (status (frontmatter task))),
         assignee_value = JStr (assignee_string (assignee (frontmatter task))),
         priority_value = JStr (priority_string (priority (frontmatter task))),
         project_value = map_option JStr (project (frontmatter task)),
         due_date_value = map_option JStr (due_date (frontmatter task)),
         blocked_by_value = map_option JStr (blocked_by (frontmatter task)),
         follow_up_date_value = map_option JStr (follow_up_date (frontmatter task)),
         created_at_value = JStr (created_at (frontmatter task)),
         completed_at_value = map_option JStr (completed_at (frontmatter task)),
         tags_value = JArray (map JStr (case tags (frontmatter task) of None \<Rightarrow> [] | Some ts \<Rightarrow> ts))\<rparr>,
      body_value = body task,
      filePath_value = filePath task\<rparr>"

text \<open>A task file with a partial header of odd values, and a decoder that knows it.\<close>

definition example_text :: string where
  "example_text =
     join [LF] [''---'', ''status: in review'', ''priority: 0'', ''tags: urgent'', ''---'', [],
                ''  Quarterly numbers  '', []]"

definition example_decode :: "string \<Rightarrow> js_value option" where
  "example_decode raw =
     (if raw = example_text
      then Some (JObject [(''status'', JStr ''in review''), (''priority'', JNum 0),
                          (''tags'', JStr ''urgent'')])
      else None)"

text \<open>One task, of status working, which the board holds in two other columns.\<close>

definition misplaced_vault :: Vault where
  "misplaced_vault =
     \<lparr>task_files = [(''A.md'', \<lparr>data = no_data\<lparr>data_status := Some Working\<rparr>, content = [LF]\<rparr>)],
      board_file = Some (join [LF] [''## Backlog'', ''- [ ] [[A]]'', ''## Next'', ''- [ ] [[A]]''])\<rparr>"

section \<open>Properties of the follow-up tracker\<close>

declare excess_bits.simps [simp del]

lemma excess_bits_small: "a < 2 ^ 53 \<Longrightarrow> excess_bits a = 0"
  by (subst excess_bits.simps) simp

lemma excess_bits_2_53: "excess_bits 9007199254740992 = 1"
  by (subst excess_bits.simps) (simp add: excess_bits_small)

lemma round_double_exact:
  assumes "\<bar>x\<bar> \<le> 2 ^ 53"
  shows "round_double x = x"
proof (cases "\<bar>x\<bar> = 2 ^ 53")
  case True
  then have "x = 9007199254740992 \<or> x = - 9007199254740992" by (simp add: abs_if split: if_splits)
  then show ?thesis
    by (auto simp: round_double_def excess_bits_2_53 Let_def)
next
  case False
  with assms have "nat \<bar>x\<bar> < 2 ^ 53" by simp
  then have "excess_bits (nat \<bar>x\<bar>) = 0" by (rule excess_bits_small)
  then show ?thesis
    by (simp add: round_double_def Let_def sgn_if)
qed

lemma daysAgo_floor:
  "\<bar>now - t\<bar> \<le> 2 ^ 53 \<Longrightarrow>
   daysAgo now (Some t) = Some \<lfloor>(of_int (now - t) :: real) / of_int ms_per_day\<rfloor>"
  using floor_divide_of_int_eq [of "now - t" ms_per_day, where ?'a = real]
  by (simp add: daysAgo_def round_double_exact del: of_int_diff)

lemma isOverdue_iff:
  assumes "\<bar>now - t\<bar> \<le> 2 ^ 53"
  shows "isOverdue ty now (Some t) \<longleftrightarrow> (OVERDUE_THRESHOLDS ty + 1) * ms_per_day \<le> now - t"
proof -
  have "OVERDUE_THRESHOLDS ty < (now - t) div 86400000
        \<longleftrightarrow> (OVERDUE_THRESHOLDS ty + 1) * 86400000 \<le> now - t"
    by (cases ty) (simp_all, arith+)
  then show ?thesis
    by (simp add: isOverdue_def daysAgo_def ms_per_day_def round_double_exact [OF assms])
qed

lemma days_exact: "round_double (k * 86400000) = k * 86400000" if "\<bar>k\<bar> \<le> 4" for k
  by (rule round_double_exact) (use that in simp)

text \<open>
  Beyond \<open>2^53\<close> the subtraction rounds: at the two ends of the range of instants the
  age is one day more than the floor of the elapsed days.
\<close>

lemma excess_bits_example: "excess_bits 17279999999999999 = 1"
  by (subst excess_bits.simps) (simp add: excess_bits_small)

lemma daysAgo_rounded:
  "daysAgo 8640000000000000 (Some (- 8639999999999999)) = Some 200000000
   \<and> (8640000000000000 - (- 8639999999999999)) div ms_per_day = (199999999 :: int)"
  by (simp add: daysAgo_def round_double_def excess_bits_example Let_def ms_per_day_def)

text \<open>
  Claim C7. Let the elapsed time between the date of a message and now be at most
  \<open>2^53\<close> milliseconds in magnitude (it is for every date a \<^verbatim>\<open>Date\<close> can hold while the
  clock reads less than \<open>2^53 - 8.64 * 10^15\<close>, some eleven thousand years from 1970).
  Then the age of the message in days is the floor of the elapsed time divided by one
  day, and the message is overdue exactly when that age is strictly above the threshold
  of its type (needs_reply 1, awaiting_reply 3, needs_action 2), that is, once
  threshold + 1 whole days have elapsed. A needs-reply message dated exactly one day ago
  is not overdue and one dated two days ago is; an awaiting-reply message dated three
  days ago is not overdue and one dated four days ago is. A message whose date does not
  parse has no age and is never overdue.
\<close>

theorem C7_overdue_thresholds:
  assumes "\<bar>now - t\<bar> \<le> 2 ^ 53"
  shows "daysAgo now (Some t) = Some \<lfloor>(of_int (now - t) :: real) / 86400000\<rfloor>
   \<and> (isOverdue ty now (Some t) \<longleftrightarrow>
        (\<exists>n. daysAgo now (Some t) = Some n \<and> n > OVERDUE_THRESHOLDS ty))
   \<and> (isOverdue ty now (Some t) \<longleftrightarrow> (OVERDUE_THRESHOLDS ty + 1) * 86400000 \<le> now - t)
   \<and> OVERDUE_THRESHOLDS needs_reply = 1
   \<and> OVERDUE_THRESHOLDS awaiting_reply = 3
   \<and> OVERDUE_THRESHOLDS needs_action = 2
   \<and> \<not> isOverdue needs_reply now (Some (now - 1 * 86400000))
   \<and> isOverdue needs_reply now (Some (now - 2 * 86400000))
   \<and> \<not> isOverdue awaiting_reply now (Some (now - 3 * 86400000))
   \<and> isOverdue awaiting_reply now (Some (now - 4 * 86400000))
   \<and> \<not> isOverdue ty now None"
proof -
  have day: "ms_per_day = 86400000" by (simp add: ms_per_day_def)
  have a: "daysAgo now (Some t) = Some \<lfloor>(of_int (now - t) :: real) / 86400000\<rfloor>"
    using daysAgo_floor [OF assms] by (simp add: day)
  have b: "isOverdue ty now (Some t) \<longleftrightarrow>
        (\<exists>n. daysAgo now (Some t) = Some n \<and> n > OVERDUE_THRESHOLDS ty)"
    by (simp add: isOverdue_def daysAgo_def)
  have c: "isOverdue ty now (Some t) \<longleftrightarrow> (OVERDUE_THRESHOLDS ty + 1) * 86400000 \<le> now - t"
    using isOverdue_iff [OF assms] by (simp add: day)
  have d: "\<not> isOverdue ty now None"
    by (simp add: isOverdue_def daysAgo_def)
  have e: "isOverdue ty' now (Some (now - k * 86400000)) \<longleftrightarrow> OVERDUE_THRESHOLDS ty' < k"
    if "\<bar>k\<bar> \<le> 4" for k ty'
    using days_exact [OF that] by (simp add: isOverdue_def daysAgo_def day)
  have e1: "\<not> isOverdue needs_reply now (Some (now - 1 * 86400000))"
    using e [of 1 needs_reply] by simp
  have e2: "isOverdue needs_reply now (Some (now - 2 * 86400000))"
    using e [of 2 needs_reply] by simp
  have e3: "\<not> isOverdue awaiting_reply now (Some (now - 3 * 86400000))"
    using e [of 3 awaiting_reply] by simp
  have e4: "isOverdue awaiting_reply now (Some (now - 4 * 86400000))"
    using e [of 4 awaiting_reply] by simp
  from a b c d e1 e2 e3 e4 show ?thesis by simp
qed

theorem C7_overdue_thresholds_witness:
  "\<bar>1771664400000 - 1771500000000\<bar> \<le> (2 ^ 53 :: int)
   \<and> daysAgo 1771664400000 (Some 1771500000000) = Some 1
   \<and> \<not> isOverdue needs_reply 1771664400000 (Some 1771500000000)
   \<and> isOverdue needs_reply 1771664400000 (Some 1771400000000)"
proof -
  have h: "\<bar>1771664400000 - 1771500000000\<bar> \<le> (2 ^ 53 :: int)" by simp
  have h2: "\<bar>1771664400000 - 1771400000000\<bar> \<le> (2 ^ 53 :: int)" by simp
  from C7_overdue_thresholds [OF h, of needs_reply]
  have a: "daysAgo 1771664400000 (Some 1771500000000) = Some 1"
    and b: "\<not> isOverdue needs_reply 1771664400000 (Some 1771500000000)"
    by simp_all
  from C7_overdue_thresholds [OF h2, of needs_reply]
  have c: "isOverdue needs_reply 1771664400000 (Some 1771400000000)" by simp
  from h a b c show ?thesis by (intro conjI)
qed

section \<open>Lemmas on the string operations\<close>

lemma strip_prefix_append [simp]: "strip_prefix p (p @ s) = Some s"
  by (induction p) auto

lemma strip_prefix_self [simp]: "strip_prefix p p = Some []"
  using strip_prefix_append [of p "[]"] by simp

lemma strip_prefix_Some_iff: "strip_prefix p s = Some r \<longleftrightarrow> s = p @ r"
  by (induction p s rule: strip_prefix.induct) auto

lemma strip_prefix_None_append:
  "strip_prefix p s = None \<Longrightarrow> length p \<le> length s \<Longrightarrow> strip_prefix p (s @ r) = None"
  by (induction p s rule: strip_prefix.induct) (auto split: if_splits)

lemma split_on_no_sep: "sep \<notin> set l \<Longrightarrow> split_on sep l = [l]"
  by (induction l) auto

lemma split_on_append: "sep \<notin> set l \<Longrightarrow> split_on sep (l @ sep # s) = l # split_on sep s"
  by (induction l) auto

lemma split_on_join:
  "ls \<noteq> [] \<Longrightarrow> \<forall>l \<in> set ls. sep \<notin> set l \<Longrightarrow> split_on sep (join [sep] ls) = ls"
proof (induction "[sep]" ls rule: join.induct)
  case 1
  then show ?case by simp
next
  case (2 l)
  then show ?case by (simp add: split_on_no_sep)
next
  case (3 l v va)
  then show ?case by (simp add: split_on_append)
qed

lemma lazy_until_sound:
  "lazy_until d s = Some (t, r) \<Longrightarrow> s = t @ d @ r \<and> t \<noteq> [] \<and> (\<forall>c \<in> set t. \<not> is_line_terminator c)"
proof (induction d s arbitrary: t r rule: lazy_until.induct)
  case (1 delim)
  then show ?case by simp
next
  case (2 delim c cs)
  then show ?case
    by (auto split: if_splits option.splits simp: strip_prefix_Some_iff)
qed

lemma lazy_until_minimal:
  "lazy_until d s = Some (t, r) \<Longrightarrow> lazy_until d (t @ d) = Some (t, [])"
proof (induction d s arbitrary: t r rule: lazy_until.induct)
  case (1 delim)
  then show ?case by simp
next
  case (2 delim c cs)
  show ?case
  proof (cases "strip_prefix delim cs")
    case (Some r')
    with 2 show ?thesis by (auto split: if_splits)
  next
    case None
    with 2 obtain t' where t': "t = c # t'" "lazy_until delim cs = Some (t', r)" "\<not> is_line_terminator c"
      by (auto split: if_splits option.splits)
    from 2(1) [OF t'(3) None t'(2)] have ih: "lazy_until delim (t' @ delim) = Some (t', [])" .
    from lazy_until_sound [OF t'(2)] have cs: "cs = t' @ delim @ r" by simp
    have "strip_prefix delim (t' @ delim) = None"
    proof (cases "strip_prefix delim (t' @ delim)")
      case (Some q)
      then have "t' @ delim = delim @ q" by (simp add: strip_prefix_Some_iff)
      then have "cs = delim @ q @ r" using cs by simp
      then have "strip_prefix delim cs = Some (q @ r)" by simp
      with None show ?thesis by simp
    qed simp
    with ih t' show ?thesis by simp
  qed
qed

lemma lazy_until_extend:
  "lazy_until d (t @ d) = Some (t, []) \<Longrightarrow> lazy_until d (t @ d @ r) = Some (t, r)"
proof (induction t)
  case Nil
  then show ?case using lazy_until_sound by fastforce
next
  case (Cons c t)
  show ?case
  proof (cases "strip_prefix d (t @ d)")
    case (Some q)
    with Cons.prems have "t = []" "q = []" by (auto split: if_splits)
    with Cons.prems show ?thesis by (auto split: if_splits)
  next
    case None
    with Cons.prems have nt: "\<not> is_line_terminator c" and l: "lazy_until d (t @ d) = Some (t, [])"
      by (auto split: if_splits option.splits)
    have "strip_prefix d ((t @ d) @ r) = None"
      by (rule strip_prefix_None_append [OF None]) simp
    with Cons.IH [OF l] nt show ?thesis by simp
  qed
qed

lemma trim_fixed:
  "t = [] \<or> (\<not> is_space (hd t) \<and> \<not> is_space (last t)) \<Longrightarrow> trim t = t"
proof (cases t)
  case Nil
  then show ?thesis by (simp add: trim_def)
next
  case (Cons a list)
  assume "t = [] \<or> (\<not> is_space (hd t) \<and> \<not> is_space (last t))"
  with Cons have h: "\<not> is_space (hd t)" and l: "\<not> is_space (last t)" and ne: "t \<noteq> []" by auto
  from h ne have 1: "dropWhile is_space t = t" by (cases t) auto
  from l ne have 2: "dropWhile is_space (rev t) = rev t"
    by (cases "rev t") (auto simp: hd_rev [symmetric] simp del: hd_rev)
  show ?thesis by (simp add: trim_def 1 2)
qed

lemma trim_ends:
  "trim s = [] \<or> (\<not> is_space (hd (trim s)) \<and> \<not> is_space (last (trim s)))"
proof -
  define u where "u = dropWhile is_space s"
  define v where "v = dropWhile is_space (rev u)"
  have t: "trim s = rev v" by (simp add: trim_def u_def v_def)
  show ?thesis
  proof (cases "v = []")
    case True
    then show ?thesis by (simp add: t)
  next
    case False
    then have hv: "\<not> is_space (hd v)" unfolding v_def by (simp add: hd_dropWhile)
    from False have une: "u \<noteq> []" unfolding v_def by auto
    then have hu: "\<not> is_space (hd u)" unfolding u_def by (simp add: hd_dropWhile)
    obtain w where w: "rev u = w @ v" unfolding v_def
      by (metis takeWhile_dropWhile_id)
    with False have "last v = last (rev u)" by simp
    then have "last v = hd u" using une by (simp add: last_rev)
    with hv hu False show ?thesis by (simp add: t hd_rev last_rev)
  qed
qed

lemma trim_idem: "trim (trim s) = trim s"
  by (rule trim_fixed) (rule trim_ends)

lemma set_trim: "set (trim s) \<subseteq> set s"
  by (auto simp: trim_def dest!: set_dropWhileD)

section \<open>Lemmas on the board parser and writer\<close>

lemma title_ok_LF: "title_ok t \<Longrightarrow> list_all (\<lambda>c. \<not> is_line_terminator c) t \<and> t \<noteq> []"
  unfolding title_ok_def using lazy_until_sound [of "'']]''" "t @ '']]''" t "[]"]
  by (simp add: list_all_iff)

lemma date_ok_LF: "date_ok (Some d) \<Longrightarrow> list_all (\<lambda>c. \<not> is_line_terminator c) d"
  unfolding date_ok_def using lazy_until_sound [of "''}''" "d @ ''}''" d "[]"]
  by (auto simp add: list_all_iff)

lemma not_term_LF: "list_all (\<lambda>c. \<not> is_line_terminator c) s \<Longrightarrow> LF \<notin> set s"
  by (auto simp: list_all_iff is_line_terminator_def)

lemma match_date_written:
  "date_ok d \<Longrightarrow>
   match_date (case d of None \<Rightarrow> [] | Some s \<Rightarrow> if s = [] then [] else [CHR '' '', CHR ''@'', CHR ''{''] @ s @ ''}'') = norm_date d"
proof (cases d)
  case None
  then show ?thesis by (simp add: match_date_def norm_date_def)
next
  case (Some s)
  assume ok: "date_ok d"
  show ?thesis
  proof (cases "s = []")
    case True
    with Some show ?thesis by (simp add: match_date_def norm_date_def)
  next
    case False
    with ok Some have "lazy_until ''}'' (s @ ''}'') = Some (s, [])" by (simp add: date_ok_def)
    with Some False show ?thesis
      by (simp add: match_date_def norm_date_def is_space_def)
  qed
qed

lemma match_item_written: "item_ok i \<Longrightarrow> match_item (item_line i) = Some (norm_item i)"
proof -
  assume ok: "item_ok i"
  let ?dp = "(case date i of None \<Rightarrow> [] | Some s \<Rightarrow> if s = [] then [] else [CHR '' '', CHR ''@'', CHR ''{''] @ s @ ''}'')"
  from ok have "lazy_until '']]'' (title i @ '']]'' @ ?dp) = Some (title i, ?dp)"
    unfolding item_ok_def title_ok_def by (intro lazy_until_extend) simp
  moreover from ok have "match_date ?dp = norm_date (date i)"
    unfolding item_ok_def by (intro match_date_written) simp
  ultimately show ?thesis
    by (simp add: match_item_def item_line_def norm_item_def)
qed

lemma match_column_item_line [simp]: "match_column (item_line i) = None"
  by (simp add: match_column_def item_line_def)

lemma match_column_written: "name_ok n \<Longrightarrow> match_column (''## '' @ n) = Some n"
  by (simp add: match_column_def name_ok_def list_all_iff)

lemma match_blank [simp]: "match_column [] = None" "match_item [] = None"
  "match_column ''**Complete**'' = None" "match_item ''**Complete**'' = None"
  by (simp_all add: match_column_def match_item_def)


lemma parse_lines_blank [simp]:
  "parse_lines columns cur ([] # rest) = parse_lines columns cur rest"
  "parse_lines columns cur (''**Complete**'' # rest) = parse_lines columns cur rest"
  by (cases cur; simp)+

lemma parse_lines_items:
  "list_all item_ok is \<Longrightarrow>
   parse_lines columns (Some col) (map item_line is @ rest)
   = parse_lines columns (Some (col\<lparr>items := items col @ map norm_item is\<rparr>)) rest"
proof (induction "is" arbitrary: col)
  case Nil
  then show ?case by simp
next
  case (Cons i "is")
  then show ?case by (simp add: match_item_written)
qed

lemma parse_lines_column:
  assumes "column_ok col"
  shows "parse_lines columns cur (column_lines col @ rest)
         = parse_lines (flush columns cur) (Some (norm_column col)) rest"
proof -
  from assms have nok: "name_ok (name col)" and i: "list_all item_ok (items col)"
    by (simp_all add: column_ok_def)
  define header where "header = ''## '' @ name col"
  from nok have n: "match_column header = Some (name col)"
    unfolding header_def by (rule match_column_written)
  from nok have t: "trim (name col) = name col"
    by (simp add: name_ok_def)
  define tail where "tail = (if name col = ''Done'' then [[], ''**Complete**''] else []) @ [[]] @ rest"
  have tl: "parse_lines cs c tail = parse_lines cs c rest" for cs c
    by (cases c) (simp_all add: tail_def)
  have eq: "\<lparr>name = name col, items = map norm_item (items col)\<rparr> = norm_column col"
    by (simp add: norm_column_def)
  have "column_lines col @ rest = header # [] # map item_line (items col) @ tail"
    by (simp add: column_lines_def header_def tail_def)
  then have "parse_lines columns cur (column_lines col @ rest)
      = parse_lines (flush columns cur) (Some \<lparr>name = name col, items = []\<rparr>)
          (map item_line (items col) @ tail)"
    using n t by simp
  also have "\<dots> = parse_lines (flush columns cur) (Some (norm_column col)) tail"
    using parse_lines_items [OF i, of "flush columns cur" "\<lparr>name = name col, items = []\<rparr>" tail]
    by (simp add: eq)
  finally show ?thesis by (simp add: tl)
qed

lemma parse_lines_columns:
  "list_all column_ok cs \<Longrightarrow>
   parse_lines columns cur (concat (map column_lines cs)) = flush columns cur @ map norm_column cs"
proof (induction cs arbitrary: columns cur)
  case Nil
  then show ?case by simp
next
  case (Cons c cs)
  then show ?case by (simp add: parse_lines_column flush_def split: option.splits)
qed

lemma item_line_LF: "item_ok i \<Longrightarrow> LF \<notin> set (item_line i)"
  using title_ok_LF [of "title i"] date_ok_LF [of _] not_term_LF
  by (auto simp: item_ok_def item_line_def split: option.splits)

lemma column_lines_LF: "column_ok col \<Longrightarrow> l \<in> set (column_lines col) \<Longrightarrow> LF \<notin> set l"
  using item_line_LF not_term_LF [of "name col"]
  by (auto simp: column_ok_def name_ok_def column_lines_def list_all_iff)

lemma matter_content_written:
  "matter_content (join [LF] ([''---'', ''kanban-plugin: basic'', ''---'', []] @ L)) = join [LF] ([] # L)"
  by (cases L) (simp_all add: matter_content_def)

lemma parse_written:
  assumes "list_all column_ok cs"
  shows "parseBoardFile (Some (writeBoardFile cs)) = map norm_column cs"
proof -
  let ?L = "concat (map column_lines cs)"
  have "\<forall>l \<in> set ([] # ?L). LF \<notin> set l"
    using assms column_lines_LF by (auto simp: list_all_iff)
  then have "split_on LF (join [LF] ([] # ?L)) = [] # ?L"
    by (intro split_on_join) simp_all
  moreover have "matter_content (writeBoardFile cs) = join [LF] ([] # ?L)"
    unfolding writeBoardFile_def by (rule matter_content_written)
  ultimately show ?thesis
    using parse_lines_columns [OF assms, of "[]" None]
    by (simp add: parseBoardFile_def flush_def)
qed

section \<open>What the parser returns, and the round trip\<close>

lemma match_item_parsed: "match_item line = Some i \<Longrightarrow> item_ok i \<and> date i \<noteq> Some []"
proof -
  assume m: "match_item line = Some i"
  then obtain c r3 r4 where t: "lazy_until '']]'' r3 = Some (title i, r4)" and d: "date i = match_date r4"
    by (auto simp: match_item_def split: option.splits list.splits if_splits)
  from t have "title_ok (title i)"
    unfolding title_ok_def by (rule lazy_until_minimal)
  moreover have "date_ok (match_date r4) \<and> match_date r4 \<noteq> Some []"
    using lazy_until_minimal [of "''}''"] lazy_until_sound [of "''}''"]
    by (fastforce simp: match_date_def date_ok_def split: option.splits)
  ultimately show ?thesis by (simp add: item_ok_def d)
qed

lemma match_column_parsed:
  "match_column line = Some n \<Longrightarrow> column_parsed \<lparr>name = trim n, items = []\<rparr>"
  using set_trim [of n]
  by (auto simp: match_column_def column_parsed_def trim_idem list_all_iff split: option.splits if_splits)

lemma parse_lines_parsed:
  "list_all column_parsed columns \<Longrightarrow> (case cur of None \<Rightarrow> True | Some c \<Rightarrow> column_parsed c) \<Longrightarrow>
   list_all column_parsed (parse_lines columns cur ls)"
proof (induction columns cur ls rule: parse_lines.induct)
  case (1 columns cur)
  then show ?case by (simp add: flush_def split: option.splits)
next
  case (2 columns cur line rest)
  show ?case
  proof (cases "match_column line")
    case (Some n)
    have "list_all column_parsed (flush columns cur)"
      using 2(5,6) by (simp add: flush_def split: option.splits)
    with 2(4) [OF Some] match_column_parsed [OF Some] Some show ?thesis by simp
  next
    case None
    show ?thesis
    proof (cases cur)
      case N: None
      with 2(1) [OF None N] 2(5) None show ?thesis by simp
    next
      case S: (Some col)
      show ?thesis
      proof (cases "match_item line")
        case MN: None
        with 2(2) [OF None S MN] 2(5,6) None S show ?thesis by simp
      next
        case MS: (Some i)
        from 2(6) S match_item_parsed [OF MS]
        have "column_parsed (col\<lparr>items := items col @ [i]\<rparr>)"
          by (simp add: column_parsed_def)
        with 2(3) [OF None S MS] 2(5) None S MS show ?thesis by simp
      qed
    qed
  qed
qed

lemma parsed_columns: "list_all column_parsed (parseBoardFile board)"
  by (cases board) (simp_all add: parseBoardFile_def parse_lines_parsed)

lemma column_parsed_ok: "column_parsed col \<Longrightarrow> name col \<noteq> [] \<Longrightarrow> column_ok col"
  by (simp add: column_parsed_def column_ok_def name_ok_def list_all_iff)

lemma column_parsed_norm: "column_parsed col \<Longrightarrow> norm_column col = col"
proof -
  assume "column_parsed col"
  then have "map norm_item (items col) = items col"
    by (intro map_idI) (auto simp: column_parsed_def list_all_iff norm_item_def norm_date_def split: option.splits)
  then show ?thesis by (simp add: norm_column_def)
qed

lemma board_ok_columns: "board_ok board \<Longrightarrow> list_all column_ok (parseBoardFile board)"
  using parsed_columns [of board] column_parsed_ok
  by (auto simp: board_ok_def list_all_iff)

lemma norm_parsed: "map norm_column (parseBoardFile board) = parseBoardFile board"
  using parsed_columns [of board] column_parsed_norm
  by (intro map_idI) (auto simp: list_all_iff)

text \<open>
  Claim C2. For every well-formed board text (every column header names its column;
  the other lines may be items or anything else), parsing the text, writing the
  result and parsing again gives the structure of the first parse: the same columns in
  the same order, the same items in the same order, with the same completion flags and
  the same dates.
\<close>

theorem C2_round_trip:
  assumes "board_ok (Some text)"
  shows "parseBoardFile (Some (writeBoardFile (parseBoardFile (Some text)))) = parseBoardFile (Some text)"
  using parse_written [OF board_ok_columns [OF assms]] by (simp add: norm_parsed)

lemma example_ok: "board_ok (Some example_board)"
  by code_simp

theorem C2_round_trip_witness:
  "board_ok (Some example_board) \<and>
   parseBoardFile (Some (writeBoardFile (parseBoardFile (Some example_board))))
     = parseBoardFile (Some example_board)"
  using example_ok C2_round_trip [of example_board] by blast

text \<open>The hypothesis is needed: a header with a blank name is read as a column with the
  empty name, written as \<^verbatim>\<open>##\<close> and one space, and that line is no header.\<close>

lemma blank_header_lost:
  "parseBoardFile (Some (writeBoardFile (parseBoardFile (Some (''##  '' @ [LF] @ ''- [ ] [[A]]'')))))
   \<noteq> parseBoardFile (Some (''##  '' @ [LF] @ ''- [ ] [[A]]''))"
  by code_simp

section \<open>The board primitives on the parsed columns\<close>

lemma item_line_norm [simp]: "item_line (norm_item i) = item_line i"
  by (simp add: item_line_def norm_item_def norm_date_def split: option.splits)

lemma column_lines_norm [simp]: "column_lines (norm_column col) = column_lines col"
  by (simp add: column_lines_def norm_column_def)

lemma write_norm: "writeBoardFile (map norm_column cs) = writeBoardFile cs"
  by (simp add: writeBoardFile_def comp_def)

lemma name_ok_target: "name_ok (target_column st)"
  by (cases st) (simp_all add: target_column_def name_ok_def trim_def is_space_def is_line_terminator_def)

lemma update_first_append:
  "\<forall>x \<in> set xs. \<not> P x \<Longrightarrow> update_first P f (xs @ ys) = xs @ update_first P f ys"
  by (induction xs) auto

lemma update_first_none: "\<forall>x \<in> set xs. \<not> P x \<Longrightarrow> update_first P f xs = xs"
  by (induction xs) auto

lemma list_all_update_first:
  "list_all Q xs \<Longrightarrow> (\<And>x. Q x \<Longrightarrow> P x \<Longrightarrow> Q (f x)) \<Longrightarrow> list_all Q (update_first P f xs)"
  by (induction xs) auto

lemma map_update_first:
  "(\<And>x. P' (h x) = P x) \<Longrightarrow> (\<And>x. h (f x) = f' (h x)) \<Longrightarrow>
   map h (update_first P f xs) = update_first P' f' (map h xs)"
  by (induction xs) auto

lemma find_update_first:
  "(\<And>x. P x \<Longrightarrow> P (f x)) \<Longrightarrow> find P (update_first P f xs) = map_option f (find P xs)"
  by (induction xs) auto

lemma find_SomeD: "find P xs = Some x \<Longrightarrow> x \<in> set xs \<and> P x"
  by (induction xs) (auto split: if_splits)

lemma addToBoard_columns_unfold:
  "addToBoard_columns t st d columns =
     (if \<exists>c \<in> set columns. name c = target_column st
      then update_first (\<lambda>c. name c = target_column st) (push_item t st d) columns
      else columns @ [push_item t st d \<lparr>name = target_column st, items = []\<rparr>])"
proof (cases "find (\<lambda>c. name c = target_column st) columns")
  case None
  then have no: "\<forall>c \<in> set columns. name c \<noteq> target_column st"
    by (simp add: find_None_iff)
  then show ?thesis
    using None by (simp add: addToBoard_columns_def Let_def update_first_append)
next
  case (Some c)
  then have "\<exists>c \<in> set columns. name c = target_column st"
    using find_SomeD by fastforce
  then show ?thesis
    using Some by (simp add: addToBoard_columns_def Let_def)
qed

lemma push_item_name [simp]: "name (push_item t st d col) = name col"
  by (simp add: push_item_def)

lemma push_item_ok:
  "column_ok col \<Longrightarrow> title_ok t \<Longrightarrow> date_ok d \<Longrightarrow> column_ok (push_item t st d col)"
  by (simp add: push_item_def column_ok_def item_ok_def)

lemma add_columns_ok:
  assumes "list_all column_ok columns" "title_ok t" "date_ok d"
  shows "list_all column_ok (addToBoard_columns t st d columns)"
proof -
  have "column_ok \<lparr>name = target_column st, items = []\<rparr>"
    using name_ok_target [of st] by (simp add: column_ok_def)
  then have "column_ok (push_item t st d \<lparr>name = target_column st, items = []\<rparr>)"
    using assms(2,3) by (rule push_item_ok)
  moreover have "list_all column_ok
     (update_first (\<lambda>c. name c = target_column st) (push_item t st d) columns)"
    using assms(1) by (rule list_all_update_first) (simp add: push_item_ok assms)
  ultimately show ?thesis
    using assms(1) by (simp add: addToBoard_columns_unfold)
qed

lemma remove_columns_ok:
  "list_all column_ok columns \<Longrightarrow> list_all column_ok (removeFromBoard_columns t columns)"
  by (auto simp: removeFromBoard_columns_def column_ok_def list_all_iff)

lemma rename_columns_ok:
  "list_all column_ok columns \<Longrightarrow> title_ok new \<Longrightarrow>
   list_all column_ok (renameOnBoard_columns old new columns)"
  by (auto simp: renameOnBoard_columns_def column_ok_def item_ok_def list_all_iff)

lemma norm_push_item:
  "norm_column (push_item t st d col) = push_item t st (norm_date d) (norm_column col)"
  by (simp add: push_item_def norm_column_def norm_item_def)

lemma norm_add_columns:
  "map norm_column (addToBoard_columns t st d columns)
   = addToBoard_columns t st (norm_date d) (map norm_column columns)"
proof -
  have n: "name (norm_column c) = name c" for c by (simp add: norm_column_def)
  have ex: "(\<exists>c \<in> set (map norm_column columns). name c = target_column st)
            = (\<exists>c \<in> set columns. name c = target_column st)"
    by (simp add: n)
  have new: "norm_column \<lparr>name = target_column st, items = []\<rparr> = \<lparr>name = target_column st, items = []\<rparr>"
    by (simp add: norm_column_def)
  have "map norm_column (update_first (\<lambda>c. name c = target_column st) (push_item t st d) columns)
        = update_first (\<lambda>c. name c = target_column st) (push_item t st (norm_date d)) (map norm_column columns)"
    by (rule map_update_first) (simp_all add: n norm_push_item)
  then show ?thesis
    unfolding addToBoard_columns_unfold ex
    by (simp add: norm_push_item new)
qed

lemma norm_remove_columns:
  "map norm_column (removeFromBoard_columns t columns)
   = removeFromBoard_columns t (map norm_column columns)"
  by (auto simp: removeFromBoard_columns_def norm_column_def norm_item_def filter_map comp_def)

lemma norm_rename_columns:
  "map norm_column (renameOnBoard_columns old new columns)
   = renameOnBoard_columns old new (map norm_column columns)"
  by (auto simp: renameOnBoard_columns_def norm_column_def norm_item_def)

lemma parse_addToBoard:
  assumes "board_ok board" "title_ok t" "date_ok d"
  shows "parseBoardFile (addToBoard board t st d)
         = addToBoard_columns t st (norm_date d) (parseBoardFile board)"
  using parse_written [OF add_columns_ok [OF board_ok_columns [OF assms(1)] assms(2,3)], of st]
  by (simp add: addToBoard_def norm_add_columns norm_parsed)

lemma parse_removeFromBoard:
  assumes "board_ok board"
  shows "parseBoardFile (removeFromBoard board t) = removeFromBoard_columns t (parseBoardFile board)"
  using parse_written [OF remove_columns_ok [OF board_ok_columns [OF assms]], of t]
  by (simp add: removeFromBoard_def norm_remove_columns norm_parsed)

lemma parse_renameOnBoard:
  assumes "board_ok board" "title_ok new"
  shows "parseBoardFile (renameOnBoard board old new)
         = renameOnBoard_columns old new (parseBoardFile board)"
  using parse_written [OF rename_columns_ok [OF board_ok_columns [OF assms(1)] assms(2)], of old]
  by (simp add: renameOnBoard_def norm_rename_columns norm_parsed)

lemma column_ok_name: "column_ok col \<Longrightarrow> name col \<noteq> []"
  by (simp add: column_ok_def name_ok_def)

lemma board_ok_written: "list_all column_ok cs \<Longrightarrow> board_ok (Some (writeBoardFile cs))"
  using column_ok_name
  by (auto simp: board_ok_def parse_written list_all_iff norm_column_def)

lemma board_ok_addToBoard:
  "board_ok board \<Longrightarrow> title_ok t \<Longrightarrow> date_ok d \<Longrightarrow> board_ok (addToBoard board t st d)"
  unfolding addToBoard_def
  by (intro board_ok_written add_columns_ok board_ok_columns)

lemma board_ok_removeFromBoard: "board_ok board \<Longrightarrow> board_ok (removeFromBoard board t)"
  unfolding removeFromBoard_def
  by (intro board_ok_written remove_columns_ok board_ok_columns)

lemma board_ok_renameOnBoard:
  "board_ok board \<Longrightarrow> title_ok new \<Longrightarrow> board_ok (renameOnBoard board old new)"
  unfolding renameOnBoard_def
  by (intro board_ok_written rename_columns_ok board_ok_columns)

section \<open>Adding an item twice\<close>

lemma holds_count: "holds t col \<longleftrightarrow> 0 < count_title t col"
  by (auto simp: holds_def count_title_def filter_empty_conv)

lemma holds_push_item: "holds x (push_item t st d col) \<longleftrightarrow> holds x col \<or> x = t"
  by (auto simp: push_item_def holds_def)

lemma count_title_push_item:
  "count_title x (push_item t st d col)
   = (if x = t \<and> \<not> holds t col then count_title x col + 1 else count_title x col)"
  by (auto simp: push_item_def holds_def count_title_def)

lemma find_target_add:
  "find (\<lambda>c. name c = target_column st) (addToBoard_columns t st d columns)
   = Some (push_item t st d
       (case find (\<lambda>c. name c = target_column st) columns of
          None \<Rightarrow> \<lparr>name = target_column st, items = []\<rparr> | Some c \<Rightarrow> c))"
proof (cases "find (\<lambda>c. name c = target_column st) columns")
  case None
  then have no: "\<forall>c \<in> set columns. name c \<noteq> target_column st"
    by (simp add: find_None_iff)
  then have "find (\<lambda>c. name c = target_column st) (columns @ [push_item t st d \<lparr>name = target_column st, items = []\<rparr>])
        = Some (push_item t st d \<lparr>name = target_column st, items = []\<rparr>)"
    by (induction columns) auto
  with None no show ?thesis by (simp add: addToBoard_columns_unfold)
next
  case (Some c)
  then have "\<exists>c \<in> set columns. name c = target_column st"
    using find_SomeD by fastforce
  with Some show ?thesis
    by (simp add: addToBoard_columns_unfold find_update_first)
qed

lemma count_title_push_same:
  "count_title t (push_item t st d col) = max 1 (count_title t col)"
  by (simp add: count_title_push_item holds_count)

lemma count_in_target_add:
  "count_in_target t st (addToBoard_columns t st d columns) = max 1 (count_in_target t st columns)"
proof (cases "find (\<lambda>c. name c = target_column st) columns")
  case None
  have "count_title t \<lparr>name = target_column st, items = []\<rparr> = 0"
    by (simp add: count_title_def)
  with None show ?thesis
    by (simp add: count_in_target_def find_target_add count_title_push_same)
next
  case (Some c)
  then show ?thesis
    by (simp add: count_in_target_def find_target_add count_title_push_same)
qed

lemma add_columns_held:
  assumes "find (\<lambda>c. name c = target_column st) columns = Some c" "holds t c"
  shows "addToBoard_columns t st d columns = columns"
proof -
  have "update_first (\<lambda>c. name c = target_column st) (push_item t st d) columns = columns"
    using assms by (induction columns) (auto simp: push_item_def holds_def)
  with assms(1) show ?thesis by (simp add: addToBoard_columns_def Let_def)
qed

lemma add_columns_twice:
  "addToBoard_columns t st d' (addToBoard_columns t st d columns) = addToBoard_columns t st d columns"
  by (rule add_columns_held [OF find_target_add]) (simp add: holds_push_item)

lemma write_add_norm_date:
  "list_all column_parsed columns \<Longrightarrow>
   writeBoardFile (addToBoard_columns t st (norm_date d) columns)
   = writeBoardFile (addToBoard_columns t st d columns)"
proof -
  assume "list_all column_parsed columns"
  then have "map norm_column columns = columns"
    using column_parsed_norm by (intro map_idI) (auto simp: list_all_iff)
  then have "addToBoard_columns t st (norm_date d) columns
        = map norm_column (addToBoard_columns t st d columns)"
    by (simp add: norm_add_columns)
  then show ?thesis by (simp add: write_norm)
qed

lemma addToBoard_twice:
  assumes "board_ok board" "title_ok t" "date_ok d"
  shows "addToBoard (addToBoard board t st d) t st d = addToBoard board t st d"
proof -
  have "addToBoard (addToBoard board t st d) t st d
        = Some (writeBoardFile (addToBoard_columns t st (norm_date d) (parseBoardFile board)))"
    by (simp add: addToBoard_def [of "addToBoard board t st d"] parse_addToBoard [OF assms]
                  add_columns_twice)
  then show ?thesis
    by (simp add: write_add_norm_date [OF parsed_columns] addToBoard_def [of board])
qed

text \<open>
  Claim C3 (as amended). For every well-formed board file, every title and date that
  the board grammar can represent and every status: the second add with the same title
  and status leaves the file exactly as the first add wrote it, and the column the
  status maps to then holds max(1, k) items with that title, k being the number it held
  before the two adds. So it holds exactly one when it held none or one before.
\<close>

theorem C3_idempotent_add:
  assumes "board_ok board" "title_ok t" "date_ok d"
  shows "addToBoard (addToBoard board t st d) t st d = addToBoard board t st d
       \<and> count_in_target t st (parseBoardFile (addToBoard (addToBoard board t st d) t st d))
           = max 1 (count_in_target t st (parseBoardFile board))"
  using addToBoard_twice [OF assms, of st] parse_addToBoard [OF assms, of st]
  by (simp add: count_in_target_add)

theorem C3_idempotent_add_witness:
  "board_ok (Some example_board) \<and> title_ok ''Call Bob'' \<and> date_ok (Some ''2026-03-01'')
   \<and> addToBoard (addToBoard (Some example_board) ''Call Bob'' Next (Some ''2026-03-01''))
         ''Call Bob'' Next (Some ''2026-03-01'')
       = addToBoard (Some example_board) ''Call Bob'' Next (Some ''2026-03-01'')
   \<and> count_in_target ''Call Bob'' Next
         (parseBoardFile (addToBoard (addToBoard (Some example_board) ''Call Bob'' Next (Some ''2026-03-01''))
            ''Call Bob'' Next (Some ''2026-03-01''))) = 1"
proof -
  have b: "board_ok (Some example_board)" by (rule example_ok)
  have t: "title_ok ''Call Bob''" by code_simp
  have d: "date_ok (Some ''2026-03-01'')" by code_simp
  have c: "count_in_target ''Call Bob'' Next (parseBoardFile (Some example_board)) = 0" by code_simp
  from C3_idempotent_add [OF b t d, of Next]
  have e1: "addToBoard (addToBoard (Some example_board) ''Call Bob'' Next (Some ''2026-03-01''))
         ''Call Bob'' Next (Some ''2026-03-01'')
       = addToBoard (Some example_board) ''Call Bob'' Next (Some ''2026-03-01'')"
    and e2: "count_in_target ''Call Bob'' Next
         (parseBoardFile (addToBoard (addToBoard (Some example_board) ''Call Bob'' Next (Some ''2026-03-01''))
            ''Call Bob'' Next (Some ''2026-03-01'')))
       = max 1 (count_in_target ''Call Bob'' Next (parseBoardFile (Some example_board)))"
    by blast+
  from e2 have e3: "count_in_target ''Call Bob'' Next
         (parseBoardFile (addToBoard (addToBoard (Some example_board) ''Call Bob'' Next (Some ''2026-03-01''))
            ''Call Bob'' Next (Some ''2026-03-01''))) = 1"
    unfolding c by simp
  from b t d e1 e3 show ?thesis by (intro conjI)
qed

text \<open>
  The claim as stated fails for a title the grammar cannot represent: \<^verbatim>\<open>a]]b\<close> is
  written as \<^verbatim>\<open>[[a]]b]]\<close> and read back as \<^verbatim>\<open>a\<close>, so the second add does not
  find it, pushes it again and changes the file; the column then has two items titled
  \<^verbatim>\<open>a\<close> and none with the title that was added. It also fails on a column that
  already holds the title twice: both adds find it and leave the two items.
\<close>

theorem C3_counterexample:
  "count_in_target ''a]]b'' Backlog
     (parseBoardFile (addToBoard (addToBoard (Some defaultBoard) ''a]]b'' Backlog None) ''a]]b'' Backlog None)) = 0
   \<and> count_in_target ''a'' Backlog
     (parseBoardFile (addToBoard (addToBoard (Some defaultBoard) ''a]]b'' Backlog None) ''a]]b'' Backlog None)) = 2
   \<and> addToBoard (addToBoard (Some defaultBoard) ''a]]b'' Backlog None) ''a]]b'' Backlog None
       \<noteq> addToBoard (Some defaultBoard) ''a]]b'' Backlog None
   \<and> count_in_target ''A'' Backlog
     (parseBoardFile
        (addToBoard
           (addToBoard (Some (join [LF] [''## Backlog'', ''- [ ] [[A]]'', ''- [ ] [[A]]'']))
              ''A'' Backlog None)
           ''A'' Backlog None)) = 2"
  by code_simp

section \<open>Removing and renaming items\<close>

lemma count_title_removed: "count_title t (col\<lparr>items := filter (\<lambda>i. title i \<noteq> t) (items col)\<rparr>) = 0"
  by (simp add: count_title_def)

lemma count_on_board_removed: "count_on_board t (removeFromBoard_columns t columns) = 0"
  by (induction columns) (simp_all add: count_on_board_def removeFromBoard_columns_def count_title_def)

text \<open>
  Claim C4 (as amended). For every well-formed board file and every title, the remove
  primitive removes every item with that title, from every column that holds one: each
  column keeps its name and its other items in their order, and no item with the title
  remains on the board.
\<close>

theorem C4_remove_all:
  assumes "board_ok board"
  shows "parseBoardFile (removeFromBoard board t)
           = map (\<lambda>col. col\<lparr>items := filter (\<lambda>i. title i \<noteq> t) (items col)\<rparr>) (parseBoardFile board)
       \<and> count_on_board t (parseBoardFile (removeFromBoard board t)) = 0"
  using parse_removeFromBoard [OF assms, of t] count_on_board_removed [of t "parseBoardFile board"]
  by (simp add: removeFromBoard_columns_def)

theorem C4_remove_all_witness:
  "board_ok (Some example_board)
   \<and> parseBoardFile (removeFromBoard (Some example_board) ''Call Ann'')
       = map (\<lambda>col. col\<lparr>items := filter (\<lambda>i. title i \<noteq> ''Call Ann'') (items col)\<rparr>)
           (parseBoardFile (Some example_board))
   \<and> count_on_board ''Call Ann'' (parseBoardFile (removeFromBoard (Some example_board) ''Call Ann'')) = 0"
  using example_ok C4_remove_all [OF example_ok, of "''Call Ann''"] by (intro conjI) blast+

text \<open>
  The claim as stated fails on a board that holds the title twice: both items are
  removed, none remains.
\<close>

theorem C4_counterexample:
  "count_on_board ''A''
     (parseBoardFile (Some (join [LF] [''## Backlog'', ''- [ ] [[A]]'', ''- [ ] [[B]]'', ''- [ ] [[A]]'']))) = 2
   \<and> count_on_board ''A''
     (parseBoardFile (removeFromBoard
        (Some (join [LF] [''## Backlog'', ''- [ ] [[A]]'', ''- [ ] [[B]]'', ''- [ ] [[A]]''])) ''A'')) = 0"
  by code_simp

text \<open>
  Claim C5 (as amended). For every well-formed board file and every new title that the
  board grammar can represent, renaming substitutes the new title in place in every
  item that has the old title: the columns, their names and their order are unchanged,
  every item stays in its column at its position with its completion flag and its date,
  and the items with another title are unchanged.
\<close>

theorem C5_rename_in_place:
  assumes "board_ok board" "title_ok newTitle"
  shows "parseBoardFile (renameOnBoard board oldTitle newTitle)
           = map (\<lambda>col. col\<lparr>items :=
                    map (\<lambda>item. if title item = oldTitle then item\<lparr>title := newTitle\<rparr> else item)
                      (items col)\<rparr>) (parseBoardFile board)
       \<and> map name (parseBoardFile (renameOnBoard board oldTitle newTitle))
           = map name (parseBoardFile board)
       \<and> map (\<lambda>col. map completed (items col)) (parseBoardFile (renameOnBoard board oldTitle newTitle))
           = map (\<lambda>col. map completed (items col)) (parseBoardFile board)
       \<and> map (\<lambda>col. map date (items col)) (parseBoardFile (renameOnBoard board oldTitle newTitle))
           = map (\<lambda>col. map date (items col)) (parseBoardFile board)
       \<and> map (\<lambda>col. map title (items col)) (parseBoardFile (renameOnBoard board oldTitle newTitle))
           = map (\<lambda>col. map (\<lambda>x. if x = oldTitle then newTitle else x) (map title (items col)))
               (parseBoardFile board)"
proof -
  have p: "parseBoardFile (renameOnBoard board oldTitle newTitle)
           = map (\<lambda>col. col\<lparr>items :=
                    map (\<lambda>item. if title item = oldTitle then item\<lparr>title := newTitle\<rparr> else item)
                      (items col)\<rparr>) (parseBoardFile board)"
    using parse_renameOnBoard [OF assms, of oldTitle] by (simp add: renameOnBoard_columns_def)
  have 1: "map name (parseBoardFile (renameOnBoard board oldTitle newTitle))
           = map name (parseBoardFile board)"
    unfolding p by (simp add: comp_def)
  have 2: "map (\<lambda>col. map completed (items col)) (parseBoardFile (renameOnBoard board oldTitle newTitle))
           = map (\<lambda>col. map completed (items col)) (parseBoardFile board)"
    unfolding p by (simp add: comp_def if_distrib cong: if_cong)
  have 3: "map (\<lambda>col. map date (items col)) (parseBoardFile (renameOnBoard board oldTitle newTitle))
           = map (\<lambda>col. map date (items col)) (parseBoardFile board)"
    unfolding p by (simp add: comp_def if_distrib cong: if_cong)
  have 4: "map (\<lambda>col. map title (items col)) (parseBoardFile (renameOnBoard board oldTitle newTitle))
           = map (\<lambda>col. map (\<lambda>x. if x = oldTitle then newTitle else x) (map title (items col)))
               (parseBoardFile board)"
    unfolding p by (simp add: comp_def if_distrib cong: if_cong)
  from p 1 2 3 4 show ?thesis by (intro conjI)
qed

theorem C5_rename_in_place_witness:
  "board_ok (Some example_board) \<and> title_ok ''Call Anna''
   \<and> parseBoardFile (renameOnBoard (Some example_board) ''Call Ann'' ''Call Anna'')
       = map (\<lambda>col. col\<lparr>items :=
                map (\<lambda>item. if title item = ''Call Ann'' then item\<lparr>title := ''Call Anna''\<rparr> else item)
                  (items col)\<rparr>) (parseBoardFile (Some example_board))"
proof -
  have t: "title_ok ''Call Anna''" by code_simp
  from example_ok t C5_rename_in_place [OF example_ok t, of "''Call Ann''"]
  show ?thesis by (intro conjI) blast+
qed

text \<open>
  The claim as stated fails for a new title the grammar cannot represent: after renaming
  to \<^verbatim>\<open>x]]y\<close> the item is read back with the title \<^verbatim>\<open>x\<close>, and no item has the new
  title.
\<close>

theorem C5_counterexample:
  "map (\<lambda>col. map title (items col))
     (parseBoardFile (renameOnBoard (Some example_board) ''Call Ann'' ''x]]y''))
   = [[''Write report'', ''x''], [''Pay rent'']]"
  by code_simp

section \<open>Adding a title that another column holds\<close>

lemma holder_names_append [simp]:
  "holder_names t (xs @ ys) = holder_names t xs @ holder_names t ys"
  by (simp add: holder_names_def)

lemma count_on_board_append [simp]:
  "count_on_board t (xs @ ys) = count_on_board t xs + count_on_board t ys"
  by (simp add: count_on_board_def)

lemma holder_names_Cons:
  "holder_names t (c # cs) = (if holds t c then name c # holder_names t cs else holder_names t cs)"
  by (simp add: holder_names_def)

lemma count_on_board_Cons: "count_on_board t (c # cs) = count_title t c + count_on_board t cs"
  by (simp add: count_on_board_def)

text \<open>Pushing a title into the first column of a name, when no column of that name holds it.\<close>

lemma push_first_fresh:
  assumes "\<exists>c \<in> set columns. name c = T" "\<forall>c \<in> set columns. name c = T \<longrightarrow> \<not> holds t c"
  shows "set (holder_names t (update_first (\<lambda>c. name c = T) (push_item t st d) columns))
           = insert T (set (holder_names t columns))
       \<and> length (holder_names t (update_first (\<lambda>c. name c = T) (push_item t st d) columns))
           = length (holder_names t columns) + 1
       \<and> count_on_board t (update_first (\<lambda>c. name c = T) (push_item t st d) columns)
           = count_on_board t columns + 1"
  using assms
proof (induction columns)
  case Nil
  then show ?case by simp
next
  case (Cons c cs)
  show ?case
  proof (cases "name c = T")
    case True
    with Cons.prems have "\<not> holds t c" by simp
    with True show ?thesis
      by (simp add: holder_names_Cons count_on_board_Cons holds_push_item count_title_push_item)
  next
    case False
    with Cons.prems have "\<exists>c \<in> set cs. name c = T" "\<forall>c \<in> set cs. name c = T \<longrightarrow> \<not> holds t c"
      by auto
    from Cons.IH [OF this] False show ?thesis
      by (auto simp: holder_names_Cons count_on_board_Cons)
  qed
qed

lemma add_columns_fresh:
  assumes "target_column st \<notin> set (holder_names t columns)"
  shows "set (holder_names t (addToBoard_columns t st d columns))
           = insert (target_column st) (set (holder_names t columns))
       \<and> length (holder_names t (addToBoard_columns t st d columns))
           = length (holder_names t columns) + 1
       \<and> count_on_board t (addToBoard_columns t st d columns) = count_on_board t columns + 1"
proof (cases "\<exists>c \<in> set columns. name c = target_column st")
  case True
  from assms have "\<forall>c \<in> set columns. name c = target_column st \<longrightarrow> \<not> holds t c"
    by (force simp: holder_names_def)
  from push_first_fresh [OF True this] True show ?thesis
    by (simp add: addToBoard_columns_unfold)
next
  case False
  have "holds t (push_item t st d \<lparr>name = target_column st, items = []\<rparr>)"
    by (simp add: holds_push_item)
  moreover have "count_title t (push_item t st d \<lparr>name = target_column st, items = []\<rparr>) = 1"
    by (simp add: count_title_push_same) (simp add: count_title_def)
  ultimately show ?thesis
    using False by (simp add: addToBoard_columns_unfold holder_names_Cons count_on_board_Cons
                              holder_names_def [of t "[]"] count_on_board_def [of t "[]"])
qed

lemma held_title_ok:
  assumes "holder_names t (parseBoardFile board) \<noteq> []"
  shows "title_ok t"
proof -
  from assms obtain col where c: "col \<in> set (parseBoardFile board)" "holds t col"
    by (auto simp: holder_names_def filter_empty_conv)
  with parsed_columns [of board] have "column_parsed col" by (simp add: list_all_iff)
  with c(2) show ?thesis by (auto simp: column_parsed_def holds_def list_all_iff item_ok_def)
qed

section \<open>Where a title is after an add or a remove\<close>

lemma holder_names_update_first_other:
  "y \<noteq> t \<Longrightarrow> holder_names y (update_first P (push_item t st d) columns) = holder_names y columns"
  by (induction columns) (auto simp: holder_names_Cons holds_push_item)

lemma holds_empty [simp]: "\<not> holds y \<lparr>name = n, items = []\<rparr>"
  by (simp add: holds_def)

lemma holder_names_Nil [simp]: "holder_names y [] = []"
  by (simp add: holder_names_def)

lemma holder_names_add_other:
  "y \<noteq> t \<Longrightarrow> holder_names y (addToBoard_columns t st d columns) = holder_names y columns"
  by (simp add: addToBoard_columns_unfold holder_names_update_first_other holder_names_Cons
                holds_push_item)

lemma holder_names_add_fresh:
  assumes "holder_names t columns = []"
  shows "holder_names t (addToBoard_columns t st d columns) = [target_column st]"
proof -
  from assms have none: "\<forall>c \<in> set columns. \<not> holds t c"
    by (simp add: holder_names_def filter_empty_conv)
  have "\<exists>c \<in> set columns. name c = T \<Longrightarrow> \<forall>c \<in> set columns. \<not> holds t c \<Longrightarrow>
        holder_names t (update_first (\<lambda>c. name c = T) (push_item t st d) columns) = [T]" for T
  proof (induction columns)
    case Nil
    then show ?case by simp
  next
    case (Cons c cs)
    have "holder_names t cs = []"
      using Cons.prems(2) by (simp add: holder_names_def filter_empty_conv)
    with Cons show ?case
      by (auto simp: holder_names_Cons holds_push_item)
  qed
  with none assms show ?thesis
    by (simp add: addToBoard_columns_unfold holder_names_Cons holds_push_item
                  holder_names_def [of t "[]"])
qed

lemma holder_names_remove:
  "holder_names y (removeFromBoard_columns t columns) = (if y = t then [] else holder_names y columns)"
  by (induction columns) (auto simp: holder_names_Cons removeFromBoard_columns_def holds_def
        holder_names_def [of _ "[]"])

lemma board_titles_Cons: "board_titles (c # cs) = map title (items c) @ board_titles cs"
  by (simp add: board_titles_def)

lemma board_titles_append [simp]: "board_titles (xs @ ys) = board_titles xs @ board_titles ys"
  by (simp add: board_titles_def)

lemma orphans_push_item:
  "t \<in> F \<Longrightarrow> filter (\<lambda>x. x \<notin> F) (map title (items (push_item t st d c)))
               = filter (\<lambda>x. x \<notin> F) (map title (items c))"
  by (simp add: push_item_def)

lemma orphans_update_first:
  "t \<in> F \<Longrightarrow> filter (\<lambda>x. x \<notin> F) (board_titles (update_first P (push_item t st d) columns))
               = filter (\<lambda>x. x \<notin> F) (board_titles columns)"
  by (induction columns) (simp_all add: board_titles_Cons orphans_push_item)

lemma orphans_add:
  "t \<in> F \<Longrightarrow> filter (\<lambda>x. x \<notin> F) (board_titles (addToBoard_columns t st d columns))
               = filter (\<lambda>x. x \<notin> F) (board_titles columns)"
  by (simp add: addToBoard_columns_unfold orphans_update_first board_titles_Cons orphans_push_item
                board_titles_def [of "[]"])

lemma orphans_remove:
  "t \<in> F \<Longrightarrow> filter (\<lambda>x. x \<notin> F) (board_titles (removeFromBoard_columns t columns))
               = filter (\<lambda>x. x \<notin> F) (board_titles columns)"
proof (induction columns)
  case Nil
  then show ?case by (simp add: removeFromBoard_columns_def)
next
  case (Cons c cs)
  have "filter (\<lambda>x. x \<notin> F) (map title (filter (\<lambda>i. title i \<noteq> t) xs))
        = filter (\<lambda>x. x \<notin> F) (map title xs)" for xs
    using Cons.prems by (induction xs) auto
  with Cons show ?case
    by (simp add: removeFromBoard_columns_def board_titles_Cons)
qed

lemma board_titles_holders: "x \<in> set (board_titles columns) \<longleftrightarrow> holder_names x columns \<noteq> []"
  by (auto simp: board_titles_def holder_names_def holds_def filter_empty_conv)

lemma current_column:
  "map_option name (find (holds t) columns)
   = (case holder_names t columns of [] \<Rightarrow> None | n # ns \<Rightarrow> Some n)"
  by (induction columns) (auto simp: holder_names_Cons holder_names_def [of t "[]"])

section \<open>One task of the reconciliation loop\<close>

lemma parse_moveOnBoard:
  assumes "board_ok board" "title_ok t" "date_ok d"
  shows "parseBoardFile (moveOnBoard board t st d)
         = addToBoard_columns t st (norm_date d) (removeFromBoard_columns t (parseBoardFile board))"
    and "board_ok (moveOnBoard board t st d)"
  using assms
  by (simp_all add: moveOnBoard_def parse_addToBoard parse_removeFromBoard
        board_ok_removeFromBoard board_ok_addToBoard)

lemma board_ok_names:
  "board_ok board \<Longrightarrow> n \<in> set (holder_names t (parseBoardFile board)) \<Longrightarrow> n \<noteq> []"
  by (auto simp: board_ok_def holder_names_def list_all_iff)

lemma sync_task_step:
  assumes ok: "board_ok board" "title_ok (ParsedTask.title task)" "date_ok (due_date (frontmatter task))"
    and snap: "ParsedTask.title task \<in> set bt \<longleftrightarrow> holder_names (ParsedTask.title task) (parseBoardFile board) \<noteq> []"
    and first: "take 1 (holder_names (ParsedTask.title task) (parseBoardFile board))
                  = [target_column (status (frontmatter task))]
                \<longrightarrow> holder_names (ParsedTask.title task) (parseBoardFile board)
                  = [target_column (status (frontmatter task))]"
    and inF: "ParsedTask.title task \<in> F"
    and step: "sync_task bt task (board, a, m) = (board', a', m')"
  shows "board_ok board'"
    and "holder_names (ParsedTask.title task) (parseBoardFile board') = [target_column (status (frontmatter task))]"
    and "\<And>x. x \<noteq> ParsedTask.title task \<Longrightarrow>
           holder_names x (parseBoardFile board') = holder_names x (parseBoardFile board)"
    and "filter (\<lambda>x. x \<notin> F) (board_titles (parseBoardFile board'))
         = filter (\<lambda>x. x \<notin> F) (board_titles (parseBoardFile board))"
    and "a' = a + (if ParsedTask.title task \<notin> set bt then 1 else 0)"
    and "m' = m + (if ParsedTask.title task \<in> set bt
                      \<and> holder_names (ParsedTask.title task) (parseBoardFile board)
                          \<noteq> [target_column (status (frontmatter task))] then 1 else 0)"
proof -
  let ?t = "ParsedTask.title task"
  let ?st = "status (frontmatter task)"
  let ?d = "due_date (frontmatter task)"
  let ?cols = "parseBoardFile board"
  let ?T = "target_column ?st"
  have all: "board_ok board'
    \<and> holder_names ?t (parseBoardFile board') = [?T]
    \<and> (\<forall>x. x \<noteq> ?t \<longrightarrow> holder_names x (parseBoardFile board') = holder_names x ?cols)
    \<and> filter (\<lambda>x. x \<notin> F) (board_titles (parseBoardFile board'))
         = filter (\<lambda>x. x \<notin> F) (board_titles ?cols)
    \<and> a' = a + (if ?t \<notin> set bt then 1 else 0)
    \<and> m' = m + (if ?t \<in> set bt \<and> holder_names ?t ?cols \<noteq> [?T] then 1 else 0)"
  proof (cases "?t \<in> set bt")
    case False
    with snap have fresh: "holder_names ?t ?cols = []" by simp
    from False step have r: "board' = addToBoard board ?t ?st ?d" "a' = a + 1" "m' = m" by auto
    have p: "parseBoardFile board' = addToBoard_columns ?t ?st (norm_date ?d) ?cols"
      unfolding r using ok by (rule parse_addToBoard)
    have b: "board_ok board'" unfolding r using ok by (rule board_ok_addToBoard)
    show ?thesis
      using False b r(2,3) inF
      by (simp add: p holder_names_add_fresh [OF fresh] holder_names_add_other orphans_add)
  next
    case True
    with snap obtain c ns where c: "holder_names ?t ?cols = c # ns"
      by (cases "holder_names ?t ?cols") auto
    then have cur: "map_option name (find (holds ?t) ?cols) = Some c"
      by (simp add: current_column)
    from c board_ok_names [OF ok(1), of c ?t] have cne: "c \<noteq> []" by simp
    show ?thesis
    proof (cases "c = ?T")
      case same: True
      with first c have only: "holder_names ?t ?cols = [?T]" by simp
      from same True step cur have r: "board' = board" "a' = a" "m' = m" by (auto simp: Let_def)
      with True only ok(1) show ?thesis by simp
    next
      case diff: False
      with True step cur cne have r: "board' = moveOnBoard board ?t ?st ?d" "a' = a" "m' = m + 1"
        by (auto simp: Let_def)
      have p: "parseBoardFile board'
               = addToBoard_columns ?t ?st (norm_date ?d) (removeFromBoard_columns ?t ?cols)"
        and b: "board_ok board'"
        unfolding r using ok by (rule parse_moveOnBoard)+
      have fresh: "holder_names ?t (removeFromBoard_columns ?t ?cols) = []"
        by (simp add: holder_names_remove)
      show ?thesis
        using True diff b r(2,3) inF c
        by (simp add: p holder_names_add_fresh [OF fresh] holder_names_add_other
                      holder_names_remove orphans_add orphans_remove)
    qed
  qed
  from all show "board_ok board'" by blast
  from all show "holder_names ?t (parseBoardFile board') = [?T]" by blast
  from all show "\<And>x. x \<noteq> ?t \<Longrightarrow> holder_names x (parseBoardFile board') = holder_names x ?cols" by blast
  from all show "filter (\<lambda>x. x \<notin> F) (board_titles (parseBoardFile board'))
         = filter (\<lambda>x. x \<notin> F) (board_titles ?cols)" by blast
  from all show "a' = a + (if ?t \<notin> set bt then 1 else 0)" by blast
  from all show "m' = m + (if ?t \<in> set bt \<and> holder_names ?t ?cols \<noteq> [?T] then 1 else 0)" by blast
qed

section \<open>The two loops of the reconciliation\<close>

lemma sync_tasks_correct:
  assumes "board_ok board"
    and "distinct (map ParsedTask.title tasks)"
    and "\<forall>task \<in> set tasks. title_ok (ParsedTask.title task) \<and> date_ok (due_date (frontmatter task))"
    and "\<forall>task \<in> set tasks. ParsedTask.title task \<in> set bt
           \<longleftrightarrow> holder_names (ParsedTask.title task) (parseBoardFile board) \<noteq> []"
    and "\<forall>task \<in> set tasks.
           take 1 (holder_names (ParsedTask.title task) (parseBoardFile board))
             = [target_column (status (frontmatter task))]
           \<longrightarrow> holder_names (ParsedTask.title task) (parseBoardFile board)
             = [target_column (status (frontmatter task))]"
    and "\<forall>task \<in> set tasks. ParsedTask.title task \<in> F"
    and "sync_tasks bt tasks (board, a, m) = (board', a', m')"
  shows "board_ok board'
    \<and> (\<forall>task \<in> set tasks. holder_names (ParsedTask.title task) (parseBoardFile board')
                               = [target_column (status (frontmatter task))])
    \<and> (\<forall>x. x \<notin> ParsedTask.title ` set tasks \<longrightarrow>
            holder_names x (parseBoardFile board') = holder_names x (parseBoardFile board))
    \<and> filter (\<lambda>x. x \<notin> F) (board_titles (parseBoardFile board'))
         = filter (\<lambda>x. x \<notin> F) (board_titles (parseBoardFile board))
    \<and> a' = a + length (filter (\<lambda>task. ParsedTask.title task \<notin> set bt) tasks)
    \<and> m' = m + length (filter (\<lambda>task. ParsedTask.title task \<in> set bt
                  \<and> holder_names (ParsedTask.title task) (parseBoardFile board)
                      \<noteq> [target_column (status (frontmatter task))]) tasks)"
  using assms
proof (induction tasks arbitrary: board a m)
  case Nil
  then show ?case by simp
next
  case (Cons task tasks)
  obtain b1 a1 m1 where s1: "sync_task bt task (board, a, m) = (b1, a1, m1)"
    by (cases "sync_task bt task (board, a, m)") auto
  have ok: "board_ok board" "title_ok (ParsedTask.title task)" "date_ok (due_date (frontmatter task))"
    and snap: "ParsedTask.title task \<in> set bt \<longleftrightarrow> holder_names (ParsedTask.title task) (parseBoardFile board) \<noteq> []"
    and first: "take 1 (holder_names (ParsedTask.title task) (parseBoardFile board))
                  = [target_column (status (frontmatter task))]
                \<longrightarrow> holder_names (ParsedTask.title task) (parseBoardFile board)
                  = [target_column (status (frontmatter task))]"
    and inF: "ParsedTask.title task \<in> F"
    using Cons.prems by simp_all
  note st = sync_task_step [OF ok snap first inF s1]
  have other: "holder_names (ParsedTask.title u) (parseBoardFile b1)
               = holder_names (ParsedTask.title u) (parseBoardFile board)" if "u \<in> set tasks" for u
  proof -
    from Cons.prems(2) have "ParsedTask.title task \<notin> ParsedTask.title ` set tasks" by simp
    with that have "ParsedTask.title u \<noteq> ParsedTask.title task" by (metis imageI)
    then show ?thesis by (rule st(3))
  qed
  have rest: "sync_tasks bt tasks (b1, a1, m1) = (board', a', m')"
    using Cons.prems(7) s1 by simp
  have ih: "board_ok board'
    \<and> (\<forall>task \<in> set tasks. holder_names (ParsedTask.title task) (parseBoardFile board')
                               = [target_column (status (frontmatter task))])
    \<and> (\<forall>x. x \<notin> ParsedTask.title ` set tasks \<longrightarrow>
            holder_names x (parseBoardFile board') = holder_names x (parseBoardFile b1))
    \<and> filter (\<lambda>x. x \<notin> F) (board_titles (parseBoardFile board'))
         = filter (\<lambda>x. x \<notin> F) (board_titles (parseBoardFile b1))
    \<and> a' = a1 + length (filter (\<lambda>task. ParsedTask.title task \<notin> set bt) tasks)
    \<and> m' = m1 + length (filter (\<lambda>task. ParsedTask.title task \<in> set bt
                  \<and> holder_names (ParsedTask.title task) (parseBoardFile b1)
                      \<noteq> [target_column (status (frontmatter task))]) tasks)"
    using Cons.prems(2,3,4,5,6) other
    by (intro Cons.IH [OF st(1) _ _ _ _ _ rest]) simp_all
  have notin: "ParsedTask.title task \<notin> ParsedTask.title ` set tasks"
    using Cons.prems(2) by auto
  have cnt: "filter (\<lambda>task. ParsedTask.title task \<in> set bt
                  \<and> holder_names (ParsedTask.title task) (parseBoardFile b1)
                      \<noteq> [target_column (status (frontmatter task))]) tasks
           = filter (\<lambda>task. ParsedTask.title task \<in> set bt
                  \<and> holder_names (ParsedTask.title task) (parseBoardFile board)
                      \<noteq> [target_column (status (frontmatter task))]) tasks"
    by (rule filter_cong) (simp_all add: other)
  have c1: "board_ok board'" using ih by blast
  have c2: "\<forall>u \<in> set (task # tasks). holder_names (ParsedTask.title u) (parseBoardFile board')
                               = [target_column (status (frontmatter u))]"
    using ih notin st(2) by auto
  have c3: "\<forall>x. x \<notin> ParsedTask.title ` set (task # tasks) \<longrightarrow>
            holder_names x (parseBoardFile board') = holder_names x (parseBoardFile board)"
    using ih st(3) by auto
  have c4: "filter (\<lambda>x. x \<notin> F) (board_titles (parseBoardFile board'))
         = filter (\<lambda>x. x \<notin> F) (board_titles (parseBoardFile board))"
    using ih st(4) by simp
  have c5: "a' = a + length (filter (\<lambda>task. ParsedTask.title task \<notin> set bt) (task # tasks))"
    using ih st(5) by simp
  have c6: "m' = m + length (filter (\<lambda>task. ParsedTask.title task \<in> set bt
                  \<and> holder_names (ParsedTask.title task) (parseBoardFile board)
                      \<noteq> [target_column (status (frontmatter task))]) (task # tasks))"
    using ih st(6) unfolding cnt by simp
  from c1 c2 c3 c4 c5 c6 show ?case by (intro conjI)
qed

lemma prune_orphans_correct:
  assumes "board_ok board" "prune_orphans F ts (board, r) = (board', r')"
  shows "board_ok board'
    \<and> parseBoardFile board'
        = map (\<lambda>col. col\<lparr>items := filter (\<lambda>i. title i \<in> set F \<or> title i \<notin> set ts) (items col)\<rparr>)
            (parseBoardFile board)
    \<and> r' = r + length (filter (\<lambda>t. t \<notin> set F) ts)"
  using assms
proof (induction ts arbitrary: board r)
  case Nil
  then show ?case by simp
next
  case (Cons t ts)
  show ?case
  proof (cases "t \<in> set F")
    case True
    with Cons.prems have p: "prune_orphans F ts (board, r) = (board', r')" by simp
    have "(x \<in> set F \<or> x \<noteq> t \<and> x \<notin> set ts) = (x \<in> set F \<or> x \<notin> set ts)" for x
      using True by auto
    with Cons.IH [OF Cons.prems(1) p] True show ?thesis by simp
  next
    case False
    with Cons.prems have p: "prune_orphans F ts (removeFromBoard board t, r + 1) = (board', r')" by simp
    have b: "board_ok (removeFromBoard board t)"
      using Cons.prems(1) by (rule board_ok_removeFromBoard)
    have "(x \<noteq> t \<and> (x \<in> set F \<or> x \<notin> set ts)) = (x \<in> set F \<or> x \<noteq> t \<and> x \<notin> set ts)" for x
      using False by auto
    with Cons.IH [OF b p] False show ?thesis
      by (simp add: parse_removeFromBoard [OF Cons.prems(1)] removeFromBoard_columns_def comp_def)
  qed
qed

section \<open>Reconciliation converges\<close>

lemma parse_defaultBoard:
  "parseBoardFile (Some defaultBoard)
   = [\<lparr>name = ''Backlog'', items = []\<rparr>, \<lparr>name = ''Next'', items = []\<rparr>,
      \<lparr>name = ''Working'', items = []\<rparr>, \<lparr>name = ''Blocked'', items = []\<rparr>,
      \<lparr>name = ''Done'', items = []\<rparr>]"
  by code_simp

lemma task_files_ensure [simp]: "task_files (ensureVaultStructure v) = task_files v"
  by (simp add: ensureVaultStructure_def split: option.splits)

lemma read_matter_task:
  "file \<noteq> ''Board.md'' \<Longrightarrow> read_matter env v file = map_of (task_files v) file"
  by (simp add: read_matter_def)

lemma parseTaskFile_task_files:
  "file \<noteq> ''Board.md'' \<Longrightarrow> task_files v' = task_files v \<Longrightarrow>
   parseTaskFile env now v' file = parseTaskFile env now v file"
  by (simp add: parseTaskFile_def read_matter_task)

lemma listTaskFiles_task_files:
  assumes "task_files v' = task_files v"
  shows "listTaskFiles env now v' = listTaskFiles env now v"
proof -
  have "(\<lambda>file. if \<not> suffix ''.md'' file \<or> file = ''Board.md'' then None
               else parseTaskFile env now v' file)
        = (\<lambda>file. if \<not> suffix ''.md'' file \<or> file = ''Board.md'' then None
               else parseTaskFile env now v file)"
    using parseTaskFile_task_files [OF _ assms, of _ env now] by (auto simp: fun_eq_iff)
  with assms show ?thesis by (simp add: listTaskFiles_def)
qed

lemma listTaskFiles_ensure [simp]:
  "listTaskFiles env now (ensureVaultStructure v) = listTaskFiles env now v"
  by (rule listTaskFiles_task_files) simp

lemma board_ok_ensure:
  "board_ok (board_file v) \<Longrightarrow> board_ok (board_file (ensureVaultStructure v))"
  by (cases "board_file v") (simp_all add: ensureVaultStructure_def board_ok_def parse_defaultBoard)

lemma holder_names_ensure [simp]:
  "holder_names x (parseBoardFile (board_file (ensureVaultStructure v)))
   = holder_names x (parseBoardFile (board_file v))"
  by (simp add: ensureVaultStructure_def parse_defaultBoard parseBoardFile_def [of None]
                holder_names_def split: option.splits)

lemma board_titles_ensure [simp]:
  "board_titles (parseBoardFile (board_file (ensureVaultStructure v)))
   = board_titles (parseBoardFile (board_file v))"
  by (simp add: ensureVaultStructure_def parse_defaultBoard parseBoardFile_def [of None]
                board_titles_def split: option.splits)

lemma keep_known_titles:
  "map (\<lambda>col. col\<lparr>items := filter (\<lambda>i. title i \<in> F \<or> title i \<notin> set (board_titles columns)) (items col)\<rparr>) columns
   = map (\<lambda>col. col\<lparr>items := filter (\<lambda>i. title i \<in> F) (items col)\<rparr>) columns"
proof -
  have "filter (\<lambda>i. title i \<in> F \<or> title i \<notin> set (board_titles columns)) (items col)
        = filter (\<lambda>i. title i \<in> F) (items col)" if "col \<in> set columns" for col
    using that by (intro filter_cong) (auto simp: board_titles_def)
  then show ?thesis by simp
qed

lemma holder_names_keep:
  "x \<in> F \<Longrightarrow> holder_names x (map (\<lambda>col. col\<lparr>items := filter (\<lambda>i. title i \<in> F) (items col)\<rparr>) columns)
               = holder_names x columns"
  by (induction columns) (auto simp: holder_names_Cons holds_def)

lemma board_titles_keep:
  "set (board_titles (map (\<lambda>col. col\<lparr>items := filter (\<lambda>i. title i \<in> F) (items col)\<rparr>) columns)) \<subseteq> F"
  by (auto simp: board_titles_def)

text \<open>
  Where sync converges. Let the board file be well formed and the task files have
  distinct titles, titles and due dates that the board grammar can represent, and let
  every task that the starting board holds first in the column of its status be held
  by no other column (the board may hold tasks in wrong columns, in several wrong
  columns, lack tasks and hold orphans). Then one call to sync produces a board on
  which every task is held by exactly one column, which has the name its status maps
  to, and on which every item has the title of a task. The counts returned are: added,
  the tasks that the starting board did not hold; moved, the tasks that it held
  otherwise than in the one column of their status; removed, the orphan items of the
  starting board. The task files are not changed.
\<close>

lemma sync_converges:
  assumes "board_ok (board_file v)"
    and "distinct (map ParsedTask.title (listTaskFiles env now v))"
    and "\<forall>task \<in> set (listTaskFiles env now v).
           title_ok (ParsedTask.title task) \<and> date_ok (due_date (frontmatter task))"
    and "\<forall>task \<in> set (listTaskFiles env now v).
           take 1 (holder_names (ParsedTask.title task) (parseBoardFile (board_file v)))
             = [target_column (status (frontmatter task))]
           \<longrightarrow> holder_names (ParsedTask.title task) (parseBoardFile (board_file v))
             = [target_column (status (frontmatter task))]"
    and "syncBoardWithFiles env now v = (counts, v')"
  shows "(\<forall>task \<in> set (listTaskFiles env now v).
            holder_names (ParsedTask.title task) (parseBoardFile (board_file v'))
            = [target_column (status (frontmatter task))])
       \<and> (\<forall>x \<in> set (board_titles (parseBoardFile (board_file v'))).
            x \<in> ParsedTask.title ` set (listTaskFiles env now v))
       \<and> added counts
           = length (filter (\<lambda>task. ParsedTask.title task \<notin> set (board_titles (parseBoardFile (board_file v))))
                       (listTaskFiles env now v))
       \<and> moved counts
           = length (filter (\<lambda>task. ParsedTask.title task \<in> set (board_titles (parseBoardFile (board_file v)))
                        \<and> holder_names (ParsedTask.title task) (parseBoardFile (board_file v))
                            \<noteq> [target_column (status (frontmatter task))])
                       (listTaskFiles env now v))
       \<and> removed counts
           = length (filter (\<lambda>x. x \<notin> ParsedTask.title ` set (listTaskFiles env now v))
                       (board_titles (parseBoardFile (board_file v))))
       \<and> task_files v' = task_files v"
proof -
  let ?v = "ensureVaultStructure v"
  let ?tasks = "listTaskFiles env now v"
  let ?cols = "parseBoardFile (board_file v)"
  let ?bt = "board_titles ?cols"
  let ?F = "map ParsedTask.title ?tasks"
  obtain b1 a1 m1 where l1: "sync_tasks ?bt ?tasks (board_file ?v, 0, 0) = (b1, a1, m1)"
    by (cases "sync_tasks ?bt ?tasks (board_file ?v, 0, 0)") auto
  obtain b2 r2 where l2: "prune_orphans ?F (board_titles (parseBoardFile b1)) (b1, 0) = (b2, r2)"
    by (cases "prune_orphans ?F (board_titles (parseBoardFile b1)) (b1, 0)") auto
  from assms(5) l1 l2 have res: "counts = \<lparr>added = a1, moved = m1, removed = r2\<rparr>"
    "v' = ?v\<lparr>board_file := b2\<rparr>"
    by (simp_all add: syncBoardWithFiles_def Let_def)
  have snap: "\<forall>task \<in> set ?tasks. ParsedTask.title task \<in> set ?bt
           \<longleftrightarrow> holder_names (ParsedTask.title task) (parseBoardFile (board_file ?v)) \<noteq> []"
    by (simp add: board_titles_holders)
  have first: "\<forall>task \<in> set ?tasks.
      take 1 (holder_names (ParsedTask.title task) (parseBoardFile (board_file ?v)))
        = [target_column (status (frontmatter task))]
      \<longrightarrow> holder_names (ParsedTask.title task) (parseBoardFile (board_file ?v))
        = [target_column (status (frontmatter task))]"
    using assms(4) by simp
  have inF: "\<forall>task \<in> set ?tasks. ParsedTask.title task \<in> set ?F" by simp
  note t = sync_tasks_correct [OF board_ok_ensure [OF assms(1)] assms(2,3) snap first inF l1]
  from t have b1: "board_ok b1" by blast
  note p = prune_orphans_correct [OF b1 l2]
  have final: "parseBoardFile b2
      = map (\<lambda>col. col\<lparr>items := filter (\<lambda>i. title i \<in> set ?F) (items col)\<rparr>) (parseBoardFile b1)"
    using p by (simp add: keep_known_titles)
  have c1: "\<forall>task \<in> set ?tasks. holder_names (ParsedTask.title task) (parseBoardFile (board_file v'))
            = [target_column (status (frontmatter task))]"
    using t by (simp add: res final holder_names_keep)
  have c2: "\<forall>x \<in> set (board_titles (parseBoardFile (board_file v'))). x \<in> ParsedTask.title ` set ?tasks"
    using board_titles_keep [of "set ?F" "parseBoardFile b1"] by (auto simp: res final)
  have c3: "added counts = length (filter (\<lambda>task. ParsedTask.title task \<notin> set ?bt) ?tasks)"
    using t by (simp add: res)
  have c4: "moved counts
           = length (filter (\<lambda>task. ParsedTask.title task \<in> set ?bt
                        \<and> holder_names (ParsedTask.title task) ?cols
                            \<noteq> [target_column (status (frontmatter task))]) ?tasks)"
    using t by (simp add: res)
  have "r2 = length (filter (\<lambda>x. x \<notin> set ?F) (board_titles (parseBoardFile b1)))"
    using p by simp
  also have "filter (\<lambda>x. x \<notin> set ?F) (board_titles (parseBoardFile b1))
             = filter (\<lambda>x. x \<notin> set ?F) ?bt"
    using t by simp
  finally have c5: "removed counts
           = length (filter (\<lambda>x. x \<notin> ParsedTask.title ` set ?tasks) ?bt)"
    by (simp add: res)
  have c6: "task_files v' = task_files v" by (simp add: res)
  from c1 c2 c3 c4 c5 c6 show ?thesis by (intro conjI)
qed

text \<open>
  On the example vault one task is in the wrong column, one is not on the board and the
  board holds an orphan: one call puts every task into the column of its status and
  removes the orphan.
\<close>

lemma sync_converges_example:
  "list_all (\<lambda>task. holder_names (ParsedTask.title task)
                          (parseBoardFile (board_file (snd (syncBoardWithFiles example_env example_now example_vault))))
                        = [target_column (status (frontmatter task))])
         (listTaskFiles example_env example_now example_vault)
   \<and> set (board_titles (parseBoardFile (board_file (snd (syncBoardWithFiles example_env example_now example_vault)))))
       \<subseteq> ParsedTask.title ` set (listTaskFiles example_env example_now example_vault)
   \<and> fst (syncBoardWithFiles example_env example_now example_vault) = \<lparr>added = 1, moved = 1, removed = 1\<rparr>"
proof -
  have h1: "board_ok (board_file example_vault)" by code_simp
  have h2: "distinct (map ParsedTask.title (listTaskFiles example_env example_now example_vault))" by code_simp
  have h3: "\<forall>task \<in> set (listTaskFiles example_env example_now example_vault).
         title_ok (ParsedTask.title task) \<and> date_ok (due_date (frontmatter task))" by code_simp
  have h4: "\<forall>task \<in> set (listTaskFiles example_env example_now example_vault).
         take 1 (holder_names (ParsedTask.title task) (parseBoardFile (board_file example_vault)))
           = [target_column (status (frontmatter task))]
         \<longrightarrow> holder_names (ParsedTask.title task) (parseBoardFile (board_file example_vault))
           = [target_column (status (frontmatter task))]"
    by code_simp
  note c = sync_converges [OF h1 h2 h3 h4 surjective_pairing]
  from c have c1: "list_all (\<lambda>task. holder_names (ParsedTask.title task)
                          (parseBoardFile (board_file (snd (syncBoardWithFiles example_env example_now example_vault))))
                        = [target_column (status (frontmatter task))])
         (listTaskFiles example_env example_now example_vault)"
    unfolding list_all_iff by blast
  from c have c2: "set (board_titles (parseBoardFile (board_file (snd (syncBoardWithFiles example_env example_now example_vault)))))
       \<subseteq> ParsedTask.title ` set (listTaskFiles example_env example_now example_vault)"
    by blast
  have c3: "fst (syncBoardWithFiles example_env example_now example_vault) = \<lparr>added = 1, moved = 1, removed = 1\<rparr>"
    by code_simp
  from c1 c2 c3 show ?thesis by (intro conjI)
qed

text \<open>
  A task that the board holds in two columns, neither of them the column of its status,
  is repaired: the move removes every item with the title and adds one.
\<close>

lemma sync_repairs_misplaced_duplicate:
  "map (\<lambda>task. (ParsedTask.title task, target_column (status (frontmatter task))))
     (listTaskFiles example_env example_now misplaced_vault) = [(''A'', ''Working'')]
   \<and> holder_names ''A'' (parseBoardFile (board_file misplaced_vault)) = [''Backlog'', ''Next'']
   \<and> holder_names ''A''
        (parseBoardFile (board_file (snd (syncBoardWithFiles example_env example_now misplaced_vault))))
       = [''Working'']
   \<and> count_on_board ''A''
        (parseBoardFile (board_file (snd (syncBoardWithFiles example_env example_now misplaced_vault))))
       = 1
   \<and> fst (syncBoardWithFiles example_env example_now misplaced_vault)
       = \<lparr>added = 0, moved = 1, removed = 0\<rparr>"
  by code_simp

text \<open>
  Claim C1. One call to sync should leave every task in exactly one column, the column
  its status maps to, whatever the starting board. The code does not do that on a
  starting board that holds a task in the column of its status and in a later column
  as well. The task \<open>A\<close> has the status backlog; the board holds it in \<open>Backlog\<close> and in
  \<open>Next\<close>. The loop over the tasks stops at the first column that holds the title, finds
  the expected name and moves nothing; the loop over the orphans skips the title because
  a task has it. After the call the task is still in both columns, and the call reports
  no mutation.
\<close>

theorem C1_sync_leaves_duplicate:
  "map fst (task_files duplicate_vault) = [''A.md'']
   \<and> map_option (\<lambda>task. (ParsedTask.title task, target_column (status (frontmatter task))))
       (parseTaskFile example_env example_now duplicate_vault ''A.md'') = Some (''A'', ''Backlog'')
   \<and> holder_names ''A'' (parseBoardFile (board_file duplicate_vault)) = [''Backlog'', ''Next'']
   \<and> holder_names ''A''
        (parseBoardFile (board_file (snd (syncBoardWithFiles example_env example_now duplicate_vault))))
       = [''Backlog'', ''Next'']
   \<and> count_on_board ''A''
        (parseBoardFile (board_file (snd (syncBoardWithFiles example_env example_now duplicate_vault))))
       = 2
   \<and> fst (syncBoardWithFiles example_env example_now duplicate_vault)
       = \<lparr>added = 0, moved = 0, removed = 0\<rparr>"
  by code_simp

section \<open>Parsing a task file\<close>

text \<open>
  In the vault, the parse returns no result exactly when no file is at the path; the
  path of the board file is a path like any other.
\<close>

lemma parseTaskFile_None_iff:
  "parseTaskFile env now v file = None \<longleftrightarrow> \<not> existsSync v file"
  by (simp add: parseTaskFile_def read_matter_def existsSync_def Let_def split: option.splits)

lemma parseTaskFile_board:
  "board_file v = Some raw \<Longrightarrow>
   map_option (\<lambda>task. (ParsedTask.title task, body task, filePath task))
     (parseTaskFile env now v ''Board.md'')
   = Some (''Board'', trim (matter_content raw), ''Board.md'')"
proof -
  have "basename_md ''Board.md'' = ''Board''" by code_simp
  then show "board_file v = Some raw \<Longrightarrow>
   map_option (\<lambda>task. (ParsedTask.title task, body task, filePath task))
     (parseTaskFile env now v ''Board.md'')
   = Some (''Board'', trim (matter_content raw), ''Board.md'')"
    by (simp add: parseTaskFile_def read_matter_def Let_def)
qed

text \<open>What trimming does: it takes white space off both ends and nothing else.\<close>

lemma trim_decompose:
  "\<exists>a b. s = a @ trim s @ b \<and> list_all is_space a \<and> list_all is_space b"
proof -
  define u where "u = dropWhile is_space s"
  have 1: "s = takeWhile is_space s @ u" by (simp add: u_def)
  have "rev u = takeWhile is_space (rev u) @ dropWhile is_space (rev u)" by simp
  then have "rev (rev u) = rev (takeWhile is_space (rev u) @ dropWhile is_space (rev u))"
    by (rule arg_cong)
  then have 2: "u = trim s @ rev (takeWhile is_space (rev u))"
    unfolding rev_append rev_rev_ident by (simp only: trim_def u_def)
  have 3: "list_all is_space (takeWhile is_space s)"
    by (auto simp: list_all_iff dest: set_takeWhileD)
  have 4: "list_all is_space (rev (takeWhile is_space (rev u)))"
    by (auto simp: list_all_iff dest: set_takeWhileD)
  from 1 2 have "s = takeWhile is_space s @ trim s @ rev (takeWhile is_space (rev u))" by simp
  with 3 4 show ?thesis by blast
qed

text \<open>
  Claim C10. Parsing a task file is total on a header that decodes to a mapping,
  whatever keys the mapping has and whatever values they hold. The parse returns no
  result exactly when nothing is at the path, and it raises exactly when the path is a
  directory or the decoder refuses the header of the file or returns null for it. For a
  file whose header decodes to a mapping it returns a task: the title is the file name without its extension; status,
  assignee, priority, tags and created_at are the values of the header, and the defaults
  (backlog, me, medium, no tag, the current time) where the header omits the key or
  holds a falsy value; the optional fields are the values of the header and absent where
  it omits the key or holds a falsy value; the body is the content of the file without
  the white space at its two ends, and with nothing else removed. A header that sets
  nothing gives the task of the defaults.
\<close>

theorem C10_parse_task_total:
  "(parseTaskFile_values decode now path stored = Returned None \<longleftrightarrow> stored = None)
   \<and> (parseTaskFile_values decode now path stored = Raised
        \<longleftrightarrow> stored = Some Directory
            \<or> (\<exists>raw. stored = Some (RegularFile raw)
                  \<and> (decode raw = None \<or> decode raw = Some JNull)))
   \<and> (\<forall>raw kvs. stored = Some (RegularFile raw) \<and> decode raw = Some (JObject kvs) \<longrightarrow>
         (\<exists>task. parseTaskFile_values decode now path stored = Returned (Some task)
            \<and> filename_value task = basename_md path
            \<and> title_value task = basename_md path
            \<and> filePath_value task = path
            \<and> status_value (frontmatter_value task)
                = (case map_of kvs ''status'' of None \<Rightarrow> JStr ''backlog''
                   | Some x \<Rightarrow> if js_truthy x then x else JStr ''backlog'')
            \<and> assignee_value (frontmatter_value task)
                = (case map_of kvs ''assignee'' of None \<Rightarrow> JStr ''me''
                   | Some x \<Rightarrow> if js_truthy x then x else JStr ''me'')
            \<and> priority_value (frontmatter_value task)
                = (case map_of kvs ''priority'' of None \<Rightarrow> JStr ''medium''
                   | Some x \<Rightarrow> if js_truthy x then x else JStr ''medium'')
            \<and> tags_value (frontmatter_value task)
                = (case map_of kvs ''tags'' of None \<Rightarrow> JArray []
                   | Some x \<Rightarrow> if js_truthy x then x else JArray [])
            \<and> created_at_value (frontmatter_value task)
                = (case map_of kvs ''created_at'' of None \<Rightarrow> JStr now
                   | Some x \<Rightarrow> if js_truthy x then x else JStr now)
            \<and> project_value (frontmatter_value task)
                = (case map_of kvs ''project'' of None \<Rightarrow> None
                   | Some x \<Rightarrow> if js_truthy x then Some x else None)
            \<and> due_date_value (frontmatter_value task)
                = (case map_of kvs ''due_date'' of None \<Rightarrow> None
                   | Some x \<Rightarrow> if js_truthy x then Some x else None)
            \<and> blocked_by_value (frontmatter_value task)
                = (case map_of kvs ''blocked_by'' of None \<Rightarrow> None
                   | Some x \<Rightarrow> if js_truthy x then Some x else None)
            \<and> follow_up_date_value (frontmatter_value task)
                = (case map_of kvs ''follow_up_date'' of None \<Rightarrow> None
                   | Some x \<Rightarrow> if js_truthy x then Some x else None)
            \<and> completed_at_value (frontmatter_value task)
                = (case map_of kvs ''completed_at'' of None \<Rightarrow> None
                   | Some x \<Rightarrow> if js_truthy x then Some x else None)
            \<and> (\<exists>a b. matter_content raw = a @ body_value task @ b
                   \<and> list_all is_space a \<and> list_all is_space b)
            \<and> (body_value task = []
                \<or> \<not> is_space (hd (body_value task)) \<and> \<not> is_space (last (body_value task)))))
   \<and> (\<forall>raw. stored = Some (RegularFile raw) \<and> decode raw = Some (JObject []) \<longrightarrow>
         parseTaskFile_values decode now path stored
         = Returned (Some
             \<lparr>filename_value = basename_md path, title_value = basename_md path,
              frontmatter_value =
                \<lparr>status_value = JStr ''backlog'', assignee_value = JStr ''me'',
                 priority_value = JStr ''medium'', project_value = None, due_date_value = None,
                 blocked_by_value = None, follow_up_date_value = None,
                 created_at_value = JStr now, completed_at_value = None,
                 tags_value = JArray []\<rparr>,
              body_value = trim (matter_content raw), filePath_value = path\<rparr>))"
proof -
  have a: "parseTaskFile_values decode now path stored = Returned None \<longleftrightarrow> stored = None"
    by (simp add: parseTaskFile_values_def split: option.splits fs_entry.splits)
  have b: "parseTaskFile_values decode now path stored = Raised
        \<longleftrightarrow> stored = Some Directory
            \<or> (\<exists>raw. stored = Some (RegularFile raw)
                  \<and> (decode raw = None \<or> decode raw = Some JNull))"
    by (simp add: parseTaskFile_values_def split: option.splits fs_entry.splits)
  have c: "\<exists>task. parseTaskFile_values decode now path (Some (RegularFile raw)) = Returned (Some task)
            \<and> filename_value task = basename_md path
            \<and> title_value task = basename_md path
            \<and> filePath_value task = path
            \<and> status_value (frontmatter_value task)
                = (case map_of kvs ''status'' of None \<Rightarrow> JStr ''backlog''
                   | Some x \<Rightarrow> if js_truthy x then x else JStr ''backlog'')
            \<and> assignee_value (frontmatter_value task)
                = (case map_of kvs ''assignee'' of None \<Rightarrow> JStr ''me''
                   | Some x \<Rightarrow> if js_truthy x then x else JStr ''me'')
            \<and> priority_value (frontmatter_value task)
                = (case map_of kvs ''priority'' of None \<Rightarrow> JStr ''medium''
                   | Some x \<Rightarrow> if js_truthy x then x else JStr ''medium'')
            \<and> tags_value (frontmatter_value task)
                = (case map_of kvs ''tags'' of None \<Rightarrow> JArray []
                   | Some x \<Rightarrow> if js_truthy x then x else JArray [])
            \<and> created_at_value (frontmatter_value task)
                = (case map_of kvs ''created_at'' of None \<Rightarrow> JStr now
                   | Some x \<Rightarrow> if js_truthy x then x else JStr now)
            \<and> project_value (frontmatter_value task)
                = (case map_of kvs ''project'' of None \<Rightarrow> None
                   | Some x \<Rightarrow> if js_truthy x then Some x else None)
            \<and> due_date_value (frontmatter_value task)
                = (case map_of kvs ''due_date'' of None \<Rightarrow> None
                   | Some x \<Rightarrow> if js_truthy x then Some x else None)
            \<and> blocked_by_value (frontmatter_value task)
                = (case map_of kvs ''blocked_by'' of None \<Rightarrow> None
                   | Some x \<Rightarrow> if js_truthy x then Some x else None)
            \<and> follow_up_date_value (frontmatter_value task)
                = (case map_of kvs ''follow_up_date'' of None \<Rightarrow> None
                   | Some x \<Rightarrow> if js_truthy x then Some x else None)
            \<and> completed_at_value (frontmatter_value task)
                = (case map_of kvs ''completed_at'' of None \<Rightarrow> None
                   | Some x \<Rightarrow> if js_truthy x then Some x else None)
            \<and> (\<exists>a b. matter_content raw = a @ body_value task @ b
                   \<and> list_all is_space a \<and> list_all is_space b)
            \<and> (body_value task = []
                \<or> \<not> is_space (hd (body_value task)) \<and> \<not> is_space (last (body_value task)))"
    if "decode raw = Some (JObject kvs)" for raw kvs
    using that trim_decompose [of "matter_content raw"] trim_ends [of "matter_content raw"]
    by (simp add: parseTaskFile_values_def js_or_def js_or_undefined_def)
  have d: "parseTaskFile_values decode now path (Some (RegularFile raw))
         = Returned (Some
             \<lparr>filename_value = basename_md path, title_value = basename_md path,
              frontmatter_value =
                \<lparr>status_value = JStr ''backlog'', assignee_value = JStr ''me'',
                 priority_value = JStr ''medium'', project_value = None, due_date_value = None,
                 blocked_by_value = None, follow_up_date_value = None,
                 created_at_value = JStr now, completed_at_value = None,
                 tags_value = JArray []\<rparr>,
              body_value = trim (matter_content raw), filePath_value = path\<rparr>)"
    if "decode raw = Some (JObject [])" for raw
    using that by (simp add: parseTaskFile_values_def js_or_def js_or_undefined_def)
  from a b c d show ?thesis by blast
qed

theorem C10_parse_task_total_witness:
  "example_decode example_text
     = Some (JObject [(''status'', JStr ''in review''), (''priority'', JNum 0), (''tags'', JStr ''urgent'')])
   \<and> (\<exists>task. parseTaskFile_values example_decode example_now ''Write report.md'' (Some (RegularFile example_text))
                = Returned (Some task)
         \<and> title_value task = ''Write report''
         \<and> status_value (frontmatter_value task) = JStr ''in review''
         \<and> assignee_value (frontmatter_value task) = JStr ''me''
         \<and> priority_value (frontmatter_value task) = JStr ''medium''
         \<and> tags_value (frontmatter_value task) = JStr ''urgent''
         \<and> created_at_value (frontmatter_value task) = JStr example_now
         \<and> completed_at_value (frontmatter_value task) = None
         \<and> body_value task = ''Quarterly numbers'')"
proof -
  let ?kvs = "[(''status'', JStr ''in review''), (''priority'', JNum 0), (''tags'', JStr ''urgent'')]"
  have h: "example_decode example_text = Some (JObject ?kvs)"
    by (simp add: example_decode_def)
  have t: "basename_md ''Write report.md'' = ''Write report''" by code_simp
  have e: "parseTaskFile_values example_decode example_now ''Write report.md'' (Some (RegularFile example_text)) = Returned (Some x)
           \<Longrightarrow> body_value x = ''Quarterly numbers''" for x
  proof -
    assume r: "parseTaskFile_values example_decode example_now ''Write report.md'' (Some (RegularFile example_text)) = Returned (Some x)"
    have "trim (matter_content example_text) = ''Quarterly numbers''" by code_simp
    with r h show ?thesis by (auto simp: parseTaskFile_values_def)
  qed
  from C10_parse_task_total [where decode = example_decode and now = example_now
         and path = "''Write report.md''" and stored = "Some (RegularFile example_text)"] h
  obtain task where
    "parseTaskFile_values example_decode example_now ''Write report.md'' (Some (RegularFile example_text))
       = Returned (Some task)"
    "title_value task = basename_md ''Write report.md''"
    "status_value (frontmatter_value task) = JStr ''in review''"
    "assignee_value (frontmatter_value task) = JStr ''me''"
    "priority_value (frontmatter_value task) = JStr ''medium''"
    "tags_value (frontmatter_value task) = JStr ''urgent''"
    "created_at_value (frontmatter_value task) = JStr example_now"
    "completed_at_value (frontmatter_value task) = None"
    by auto
  with h t e show ?thesis by auto
qed

text \<open>
  The typed parse of the vault is the parse on values, for a file whose decoded header
  holds values of the declared types.
\<close>

lemma js_or_string:
  "s \<noteq> [] \<Longrightarrow> js_or (Some (JStr s)) d = JStr s"
  by (simp add: js_or_def)

lemma status_string_nonempty [simp]: "status_string x \<noteq> []"
  by (cases x) simp_all

lemma assignee_string_nonempty [simp]: "assignee_string x \<noteq> []"
  by (cases x) simp_all

lemma priority_string_nonempty [simp]: "priority_string x \<noteq> []"
  by (cases x) simp_all

lemma js_or_undefined_string:
  "js_or_undefined (map_option JStr x) = map_option JStr (truthy x)"
  by (simp add: js_or_undefined_def truthy_def split: option.splits)

lemma parseTaskFile_values_typed:
  assumes "read_matter env v file = Some f"
    and "decode raw = Some fm"
    and "holds_data (data f) fm"
    and "matter_content raw = content f"
  shows "parseTaskFile_values decode now file (Some (RegularFile raw))
         = Returned (map_option values_of_task (parseTaskFile env now v file))"
proof -
  from assms(3) have n: "fm \<noteq> JNull" by (simp add: holds_data_def)
  have 1: "js_or (js_property fm ''status'') (JStr ''backlog'')
           = JStr (status_string (or_default (data_status (data f)) Backlog))"
    using assms(3) by (simp add: holds_data_def js_or_def or_default_def split: option.splits)
  have 2: "js_or (js_property fm ''assignee'') (JStr ''me'')
           = JStr (assignee_string (or_default (data_assignee (data f)) Me))"
    using assms(3) by (simp add: holds_data_def js_or_def or_default_def split: option.splits)
  have 3: "js_or (js_property fm ''priority'') (JStr ''medium'')
           = JStr (priority_string (or_default (data_priority (data f)) Medium))"
    using assms(3) by (simp add: holds_data_def js_or_def or_default_def split: option.splits)
  have 4: "js_or (js_property fm ''created_at'') (JStr now)
           = JStr (or_default (truthy (data_created_at (data f))) now)"
    using assms(3) by (simp add: holds_data_def js_or_def or_default_def truthy_def split: option.splits)
  have 5: "js_or (js_property fm ''tags'') (JArray [])
           = JArray (map JStr (or_default (data_tags (data f)) []))"
    using assms(3) by (simp add: holds_data_def js_or_def or_default_def split: option.splits)
  have 6: "js_or_undefined (js_property fm ''project'') = map_option JStr (truthy (data_project (data f)))"
    "js_or_undefined (js_property fm ''due_date'') = map_option JStr (truthy (data_due_date (data f)))"
    "js_or_undefined (js_property fm ''blocked_by'') = map_option JStr (truthy (data_blocked_by (data f)))"
    "js_or_undefined (js_property fm ''follow_up_date'')
       = map_option JStr (truthy (data_follow_up_date (data f)))"
    "js_or_undefined (js_property fm ''completed_at'')
       = map_option JStr (truthy (data_completed_at (data f)))"
    using assms(3) by (simp_all add: holds_data_def js_or_undefined_string)
  show ?thesis
    using n assms(1,2,4)
    by (simp add: parseTaskFile_values_def parseTaskFile_def values_of_task_def Let_def 1 2 3 4 5 6)
qed

section \<open>Creating a task\<close>




lemma or_default_simps [simp]: "or_default None d = d" "or_default (Some x) d = x"
  by (simp_all add: or_default_def)

lemma truthy_None [simp]: "truthy None = None"
  by (simp add: truthy_def)

lemma truthy_idem [simp]: "truthy (truthy x) = truthy x"
  by (simp add: truthy_def split: option.splits)

lemma created_at_written [simp]: "or_default (truthy (Some now)) now = now"
  by (simp add: truthy_def)







text \<open>
  It fails on its second half as well, for the title \<^verbatim>\<open>Board\<close> in a folder without board
  file: no file has the sanitized name when create is called, and create makes the
  board file and then reports that the task exists.
\<close>

lemma createTask_Board:
  "\<not> existsSync (example_vault\<lparr>board_file := None\<rparr>)
       (sanitizeFilename (c_title (title_only ''Board'')) @ ''.md'')
   \<and> fst (createTask example_env example_now (example_vault\<lparr>board_file := None\<rparr>) (title_only ''Board''))
       = Returned (ErrorResult (''Task '' @ [CHR 0x22] @ ''Board'' @ [CHR 0x22] @ '' already exists''))
   \<and> task_files (snd (createTask example_env example_now (example_vault\<lparr>board_file := None\<rparr>) (title_only ''Board'')))
       = task_files example_vault"
  by code_simp

section \<open>Which file a task identifier resolves to\<close>

lemma parseTaskFile_Some:
  "parseTaskFile env now v f = Some task \<Longrightarrow>
   filePath task = f \<and> ParsedTask.title task = basename_md f"
  by (auto simp: parseTaskFile_def Let_def split: option.splits)

lemma parseTaskFile_path:
  "f \<noteq> ''Board.md'' \<Longrightarrow>
   map_option filePath (parseTaskFile env now v f)
   = (if f \<in> set (map fst (task_files v)) then Some f else None)"
proof (cases "map_of (task_files v) f")
  case None
  assume "f \<noteq> ''Board.md''"
  moreover from None have "f \<notin> set (map fst (task_files v))" by (simp add: map_of_eq_None_iff)
  ultimately show ?thesis using None by (simp add: parseTaskFile_def read_matter_task)
next
  case (Some a)
  assume "f \<noteq> ''Board.md''"
  moreover from Some have "f \<in> set (map fst (task_files v))"
    by (auto dest!: map_of_SomeD intro: rev_image_eqI)
  ultimately show ?thesis using Some by (simp add: parseTaskFile_def read_matter_task Let_def)
qed

lemma parseTaskFile_listed:
  "f \<noteq> ''Board.md'' \<Longrightarrow> parseTaskFile env now v f = Some task \<Longrightarrow>
   f \<in> set (map fst (task_files v))"
  using parseTaskFile_path [of f env now v] by (auto split: if_splits)

lemma completed_at_of_now: "completed_at_of env n v f = completed_at_of env n' v f"
  by (simp add: completed_at_of_def parseTaskFile_def Let_def split: option.splits)

lemma listTaskFiles_member:
  assumes "task \<in> set (listTaskFiles env now v)"
  shows "parseTaskFile env now v (filePath task) = Some task" and "filePath task \<noteq> ''Board.md''"
proof -
  from assms obtain fn where fn: "parseTaskFile env now v fn = Some task" "fn \<noteq> ''Board.md''"
    by (auto simp: listTaskFiles_def List.map_filter_def split: if_splits)
  with parseTaskFile_Some [OF fn(1)]
  show "parseTaskFile env now v (filePath task) = Some task" and "filePath task \<noteq> ''Board.md''"
    by simp_all
qed

lemma findTaskByTitle_Some:
  assumes "findTaskByTitle env now v taskId = Some task"
    and "sanitizeFilename taskId \<noteq> ''Board''"
  shows "parseTaskFile env now v (filePath task) = Some task" and "filePath task \<noteq> ''Board.md''"
proof -
  have "parseTaskFile env now v (filePath task) = Some task \<and> filePath task \<noteq> ''Board.md''"
  proof (cases "existsSync v (sanitizeFilename taskId @ ''.md'')")
    case True
    with assms have p: "parseTaskFile env now v (sanitizeFilename taskId @ ''.md'') = Some task"
      by (simp add: findTaskByTitle_def Let_def)
    with parseTaskFile_Some [OF p] assms(2) show ?thesis by simp
  next
    case False
    with assms have "find (\<lambda>t. map to_lower (ParsedTask.title t) = map to_lower taskId)
                       (listTaskFiles env now v) = Some task"
      by (simp add: findTaskByTitle_def Let_def)
    then have "task \<in> set (listTaskFiles env now v)" using find_SomeD by fastforce
    then show ?thesis using listTaskFiles_member by blast
  qed
  then show "parseTaskFile env now v (filePath task) = Some task" and "filePath task \<noteq> ''Board.md''"
    by simp_all
qed

text \<open>Which file a task identifier resolves to depends on the file names only.\<close>

lemma listed_names:
  "set ns \<subseteq> set (map fst (task_files v)) \<Longrightarrow>
   map (\<lambda>t. (ParsedTask.title t, filePath t))
     (List.map_filter (\<lambda>file. if \<not> suffix ''.md'' file \<or> file = ''Board.md'' then None
                               else parseTaskFile env now v file) ns)
   = map (\<lambda>f. (basename_md f, f)) (filter (\<lambda>file. \<not> (\<not> suffix ''.md'' file \<or> file = ''Board.md'')) ns)"
proof (induction ns)
  case Nil
  then show ?case by (simp add: List.map_filter_simps)
next
  case (Cons n ns)
  show ?case
  proof (cases "\<not> suffix ''.md'' n \<or> n = ''Board.md''")
    case True
    with Cons show ?thesis by (simp add: List.map_filter_simps)
  next
    case False
    then have nb: "n \<noteq> ''Board.md''" by simp
    from Cons.prems have "n \<in> set (map fst (task_files v))" by simp
    then obtain task where t: "parseTaskFile env now v n = Some task"
      using parseTaskFile_path [OF nb, of env now v] by (cases "parseTaskFile env now v n") auto
    from parseTaskFile_Some [OF t] t Cons False show ?thesis
      by (simp add: List.map_filter_simps)
  qed
qed

lemma find_pairs:
  "map_option filePath (find (\<lambda>t. Q (ParsedTask.title t)) ts)
   = map_option snd (find (\<lambda>p. Q (fst p)) (map (\<lambda>t. (ParsedTask.title t, filePath t)) ts))"
  by (induction ts) auto

lemma findTaskByTitle_names:
  assumes "sanitizeFilename taskId \<noteq> ''Board''"
    and "map fst (task_files v') = map fst (task_files v)"
  shows "map_option filePath (findTaskByTitle env now' v' taskId)
         = map_option filePath (findTaskByTitle env now v taskId)"
proof -
  let ?f = "sanitizeFilename taskId @ ''.md''"
  from assms(1) have nb: "?f \<noteq> ''Board.md''" by simp
  have ex: "existsSync u ?f \<longleftrightarrow> ?f \<in> set (map fst (task_files u))" for u
    using nb by (simp add: existsSync_def map_of_eq_None_iff)
  have l: "map (\<lambda>t. (ParsedTask.title t, filePath t)) (listTaskFiles env n u)
           = map (\<lambda>f. (basename_md f, f))
               (filter (\<lambda>file. \<not> (\<not> suffix ''.md'' file \<or> file = ''Board.md'')) (map fst (task_files u)))" for n u
    unfolding listTaskFiles_def by (rule listed_names) simp
  define R where "R ns = (if ?f \<in> set ns then Some ?f
           else map_option snd (find (\<lambda>p. map to_lower (fst p) = map to_lower taskId)
                  (map (\<lambda>f. (basename_md f, f))
                     (filter (\<lambda>file. \<not> (\<not> suffix ''.md'' file \<or> file = ''Board.md'')) ns))))" for ns
  have "map_option filePath (findTaskByTitle env n u taskId) = R (map fst (task_files u))" for n u
    using find_pairs [of "\<lambda>x. map to_lower x = map to_lower taskId" "listTaskFiles env n u"]
    unfolding R_def by (simp add: findTaskByTitle_def Let_def ex parseTaskFile_path [OF nb] l)
  then show ?thesis by (simp only: assms(2))
qed

section \<open>Updating the status of a task\<close>

lemma task_files_writeTaskFile:
  "file \<noteq> ''Board.md'' \<Longrightarrow>
   task_files (writeTaskFile env v file fm b)
   = AList.update file
       \<lparr>data = \<lparr>data_status = Some (status fm), data_assignee = Some (assignee fm),
                 data_priority = Some (priority fm), data_project = truthy (project fm),
                 data_due_date = truthy (due_date fm), data_blocked_by = truthy (blocked_by fm),
                 data_follow_up_date = truthy (follow_up_date fm),
                 data_created_at = Some (created_at fm),
                 data_completed_at = truthy (completed_at fm),
                 data_tags = (case tags fm of None \<Rightarrow> None
                              | Some ts \<Rightarrow> if ts = [] then None else Some ts)\<rparr>,
        content = (if b \<noteq> [] then [LF] @ b @ [LF] else [LF])\<rparr>
       (task_files v)"
  by (simp add: writeTaskFile_def Let_def)

lemma task_files_writeTaskFile_board:
  "task_files (writeTaskFile env v ''Board.md'' fm b) = task_files v"
  by (simp add: writeTaskFile_def Let_def)

lemma updateTask_status_files:
  assumes "findTaskByTitle env now v taskId = Some task"
  shows "task_files (snd (updateTask env now v (status_only taskId s)))
   = task_files (writeTaskFile env v (filePath task)
        (if s = Done \<and> truthy (completed_at (frontmatter task)) = None
         then (frontmatter task)\<lparr>status := s, completed_at := Some now\<rparr>
         else (frontmatter task)\<lparr>status := s\<rparr>) (body task))"
  using assms
  by (simp add: updateTask_def status_only_def Let_def)

lemma parsed_completed_at:
  "parseTaskFile env now v f = Some task \<Longrightarrow> truthy (completed_at (frontmatter task)) = completed_at (frontmatter task)"
  by (auto simp: parseTaskFile_def Let_def split: option.splits)

lemma updateTask_status_only:
  assumes found: "findTaskByTitle env now v taskId = Some task"
    and nb: "sanitizeFilename taskId \<noteq> ''Board''"
  shows "map fst (task_files (snd (updateTask env now v (status_only taskId s)))) = map fst (task_files v)"
    and "completed_at_of env n (snd (updateTask env now v (status_only taskId s))) (filePath task)
         = (if s = Done \<and> completed_at (frontmatter task) = None then truthy (Some now)
            else completed_at (frontmatter task))"
    and "completed_at_of env n v (filePath task) = completed_at (frontmatter task)"
proof -
  note p = findTaskByTitle_Some(1) [OF found nb]
  note fb = findTaskByTitle_Some(2) [OF found nb]
  from parseTaskFile_listed [OF fb p] have key: "filePath task \<in> set (map fst (task_files v))" .
  note c = parsed_completed_at [OF p]
  show "map fst (task_files (snd (updateTask env now v (status_only taskId s)))) = map fst (task_files v)"
    using key fb by (simp add: updateTask_status_files [OF found] task_files_writeTaskFile update_keys)
  show "completed_at_of env n (snd (updateTask env now v (status_only taskId s))) (filePath task)
         = (if s = Done \<and> completed_at (frontmatter task) = None then truthy (Some now)
            else completed_at (frontmatter task))"
    using c fb
    by (simp add: completed_at_of_def parseTaskFile_def read_matter_task
                  updateTask_status_files [OF found] task_files_writeTaskFile update_conv' Let_def)
  show "completed_at_of env n v (filePath task) = completed_at (frontmatter task)"
  proof -
    have "completed_at_of env now v (filePath task) = completed_at (frontmatter task)"
      using p by (simp add: completed_at_of_def)
    then show ?thesis using completed_at_of_now [of env n v "filePath task" now] by simp
  qed
qed

section \<open>The completion time is set once\<close>

lemma updateTask_keeps_completed_at:
  assumes nb: "sanitizeFilename taskId \<noteq> ''Board''"
    and names: "map fst (task_files u) = map fst (task_files v)"
    and found: "findTaskByTitle env t0 v taskId = Some task"
    and set: "completed_at_of env n u (filePath task) \<noteq> None"
  shows "completed_at_of env n (snd (updateTask env t u (status_only taskId s))) (filePath task)
           = completed_at_of env n u (filePath task)"
    and "map fst (task_files (snd (updateTask env t u (status_only taskId s)))) = map fst (task_files v)"
proof -
  from findTaskByTitle_names [OF nb names, where now' = t and now = t0 and env = env] found
  obtain task' where f': "findTaskByTitle env t u taskId = Some task'" and p': "filePath task' = filePath task"
    by (cases "findTaskByTitle env t u taskId") auto
  note st = updateTask_status_only [OF f' nb]
  from st(3) set p' have "completed_at (frontmatter task') \<noteq> None" by simp
  with st(2,3) p' show "completed_at_of env n (snd (updateTask env t u (status_only taskId s))) (filePath task)
           = completed_at_of env n u (filePath task)"
    by simp
  from st(1) names show "map fst (task_files (snd (updateTask env t u (status_only taskId s)))) = map fst (task_files v)"
    by simp
qed

text \<open>
  Claim C6. An update of a task to the status done sets completed_at to the current
  time exactly when completed_at is not set yet, and keeps its value otherwise. After
  that, two further status updates of the same task, to any statuses (in particular to
  working and back to done) and at any times, leave completed_at at the value it had
  after the first update: it is neither overwritten nor cleared. The task identifier is
  any that resolves to a task file; the title of the board file itself is excluded.
\<close>

theorem C6_completed_at_set_once:
  assumes found: "findTaskByTitle env t1 v taskId = Some task"
    and nb: "sanitizeFilename taskId \<noteq> ''Board''"
    and t1: "t1 \<noteq> []"
  shows "completed_at_of env n (snd (completeTask env t1 v taskId)) (filePath task)
           = (case completed_at (frontmatter task) of None \<Rightarrow> Some t1 | Some c \<Rightarrow> Some c)
       \<and> completed_at_of env n
            (snd (updateTask env t2 (snd (completeTask env t1 v taskId)) (status_only taskId s2)))
            (filePath task)
           = completed_at_of env n (snd (completeTask env t1 v taskId)) (filePath task)
       \<and> completed_at_of env n
            (snd (updateTask env t3
                    (snd (updateTask env t2 (snd (completeTask env t1 v taskId)) (status_only taskId s2)))
                    (status_only taskId s3)))
            (filePath task)
           = completed_at_of env n (snd (completeTask env t1 v taskId)) (filePath task)"
proof -
  let ?v1 = "snd (completeTask env t1 v taskId)"
  let ?v2 = "snd (updateTask env t2 ?v1 (status_only taskId s2))"
  let ?v3 = "snd (updateTask env t3 ?v2 (status_only taskId s3))"
  let ?file = "filePath task"
  note st = updateTask_status_only [OF found nb]
  have a1: "completed_at_of env n ?v1 ?file
           = (case completed_at (frontmatter task) of None \<Rightarrow> Some t1 | Some c \<Rightarrow> Some c)"
    using st(2) t1 by (simp add: completeTask_def truthy_def split: option.splits)
  then have s1: "completed_at_of env n ?v1 ?file \<noteq> None" by (simp split: option.splits)
  have n1: "map fst (task_files ?v1) = map fst (task_files v)"
    using st(1) by (simp add: completeTask_def)
  note u2 = updateTask_keeps_completed_at [OF nb n1 found s1, where t = t2 and s = s2]
  from u2(1) s1 have s2: "completed_at_of env n ?v2 ?file \<noteq> None" by simp
  note u3 = updateTask_keeps_completed_at [OF nb u2(2) found s2, where t = t3 and s = s3]
  from a1 u2(1) u3(1) show ?thesis by simp
qed

theorem C6_completed_at_set_once_witness:
  "findTaskByTitle example_env example_now example_vault ''call ann''
     = Some \<lparr>filename = ''Call Ann'', title = ''Call Ann'',
              frontmatter = \<lparr>status = Backlog, assignee = Me, priority = Medium,
                 project = None, due_date = None, blocked_by = None, follow_up_date = None,
                 created_at = example_now, completed_at = None, tags = Some []\<rparr>,
              body = [], filePath = ''Call Ann.md''\<rparr>
   \<and> sanitizeFilename ''call ann'' \<noteq> ''Board'' \<and> example_now \<noteq> []
   \<and> completed_at_of example_env [] (snd (completeTask example_env example_now example_vault ''call ann'')) ''Call Ann.md''
       = Some example_now
   \<and> completed_at_of example_env []
        (snd (updateTask example_env ''2026-03-02T08:00:00.000Z''
                (snd (updateTask example_env ''2026-03-01T08:00:00.000Z''
                        (snd (completeTask example_env example_now example_vault ''call ann''))
                        (status_only ''call ann'' Working)))
                (status_only ''call ann'' Done)))
        ''Call Ann.md''
       = Some example_now"
proof -
  let ?T = "\<lparr>filename = ''Call Ann'', title = ''Call Ann'',
              frontmatter = \<lparr>status = Backlog, assignee = Me, priority = Medium,
                 project = None, due_date = None, blocked_by = None, follow_up_date = None,
                 created_at = example_now, completed_at = None, tags = Some []\<rparr>,
              body = [], filePath = ''Call Ann.md''\<rparr>"
  have h1: "findTaskByTitle example_env example_now example_vault ''call ann'' = Some ?T" by code_simp
  have h2: "sanitizeFilename ''call ann'' \<noteq> ''Board''" by code_simp
  have h3: "example_now \<noteq> []" by (simp add: example_now_def)
  from C6_completed_at_set_once [OF h1 h2 h3, where n = "[]" and ?t2.0 = "''2026-03-01T08:00:00.000Z''"
         and ?s2.0 = Working and ?t3.0 = "''2026-03-02T08:00:00.000Z''" and ?s3.0 = Done]
  have "completed_at_of example_env [] (snd (completeTask example_env example_now example_vault ''call ann'')) ''Call Ann.md''
       = Some example_now"
   and "completed_at_of example_env []
        (snd (updateTask example_env ''2026-03-02T08:00:00.000Z''
                (snd (updateTask example_env ''2026-03-01T08:00:00.000Z''
                        (snd (completeTask example_env example_now example_vault ''call ann''))
                        (status_only ''call ann'' Working)))
                (status_only ''call ann'' Done)))
        ''Call Ann.md''
       = Some example_now"
    by simp_all
  with h1 h2 h3 show ?thesis by (intro conjI)
qed

section \<open>Reading a board on which one item has any date\<close>

lemma split_on_nonempty: "split_on sep s \<noteq> []"
  by (induction s) (auto split: list.splits)

lemma split_on_append_any:
  "split_on sep (xs @ sep # ys) = split_on sep xs @ split_on sep ys"
proof (induction xs)
  case Nil
  then show ?case by simp
next
  case (Cons c xs)
  then show ?case
    using split_on_nonempty [of sep xs]
    by (cases "split_on sep xs") auto
qed

lemma split_on_join_any:
  "ls \<noteq> [] \<Longrightarrow> split_on sep (join [sep] ls) = concat (map (split_on sep) ls)"
proof (induction "[sep]" ls rule: join.induct)
  case 1
  then show ?case by simp
next
  case (2 l)
  then show ?case by simp
next
  case (3 l v va)
  then show ?case by (simp add: split_on_append_any)
qed

lemma split_on_prefix:
  "sep \<notin> set p \<Longrightarrow>
   split_on sep (p @ s) = (p @ hd (split_on sep s)) # tl (split_on sep s)"
proof (induction p)
  case Nil
  then show ?case using split_on_nonempty [of sep s] by simp
next
  case (Cons c p)
  then show ?case by auto
qed

text \<open>The first line that an item with a representable title is written on is read as
  an item with that title, whatever its date.\<close>

lemma item_line_first:
  assumes "title_ok (title i)"
  shows "\<exists>l g i'. split_on LF (item_line i) = l # g \<and> match_column l = None
           \<and> match_item l = Some i' \<and> title i' = title i"
proof -
  define dp where "dp = (case date i of None \<Rightarrow> [] | Some d \<Rightarrow> if d = [] then []
                           else [CHR '' '', CHR ''@'', CHR ''{''] @ d @ ''}'')"
  define p where "p = ''- ['' @ (if completed i then ''x'' else '' '') @ ''] [['' @ title i @ '']]''"
  have il: "item_line i = p @ dp" by (simp add: item_line_def p_def dp_def)
  from title_ok_LF [OF assms] have "LF \<notin> set (title i)" using not_term_LF by blast
  then have "LF \<notin> set p" by (simp add: p_def)
  then have sp: "split_on LF (item_line i) = (p @ hd (split_on LF dp)) # tl (split_on LF dp)"
    unfolding il by (rule split_on_prefix)
  let ?x = "hd (split_on LF dp)"
  from assms have "lazy_until '']]'' (title i @ '']]'' @ ?x) = Some (title i, ?x)"
    unfolding title_ok_def by (rule lazy_until_extend)
  then have "match_item (p @ ?x)
      = Some \<lparr>title = title i, completed = completed i, date = match_date ?x\<rparr>"
    by (simp add: match_item_def p_def)
  moreover have "match_column (p @ ?x) = None"
    by (simp add: match_column_def p_def)
  ultimately show ?thesis using sp by simp
qed

text \<open>A column that the parser has read keeps its name; its items only grow.\<close>

lemma parse_lines_mono:
  assumes "\<And>col i. Q col \<Longrightarrow> Q (col\<lparr>items := items col @ [i]\<rparr>)"
  shows "\<exists>c \<in> set (flush columns cur). Q c \<Longrightarrow> \<exists>c \<in> set (parse_lines columns cur ls). Q c"
proof (induction columns cur ls rule: parse_lines.induct)
  case (1 columns cur)
  then show ?case by simp
next
  case (2 columns cur line rest)
  show ?case
  proof (cases "match_column line")
    case (Some n)
    have "\<exists>c \<in> set (flush (flush columns cur) (Some \<lparr>name = trim n, items = []\<rparr>)). Q c"
      using 2(5) by (auto simp: flush_def)
    from 2(4) [OF Some this] Some show ?thesis by simp
  next
    case None
    show ?thesis
    proof (cases cur)
      case N: None
      with 2(1) [OF None N] 2(5) None show ?thesis by simp
    next
      case S: (Some col)
      show ?thesis
      proof (cases "match_item line")
        case MN: None
        with 2(2) [OF None S MN] 2(5) None S show ?thesis by simp
      next
        case MS: (Some i)
        have "\<exists>c \<in> set (flush columns (Some (col\<lparr>items := items col @ [i]\<rparr>))). Q c"
          using 2(5) S assms by (auto simp: flush_def)
        from 2(3) [OF None S MS this] None S MS show ?thesis by simp
      qed
    qed
  qed
qed

text \<open>After any lines the parser is in some state, from which it reads the rest.\<close>

lemma parse_lines_state:
  "\<exists>columns' cur'. \<forall>rest. parse_lines columns cur (ls @ rest) = parse_lines columns' cur' rest"
proof (induction columns cur ls rule: parse_lines.induct)
  case (1 columns cur)
  then show ?case by auto
next
  case (2 columns cur line rest)
  then show ?case
    by (cases "match_column line"; cases cur; cases "match_item line") auto
qed

lemma parse_lines_columns_state:
  "list_all column_ok cs \<Longrightarrow>
   \<exists>columns' cur'.
     (\<forall>rest. parse_lines columns cur (concat (map column_lines cs) @ rest)
             = parse_lines columns' cur' rest)
     \<and> flush columns' cur' = flush columns cur @ map norm_column cs"
proof (induction cs arbitrary: columns cur)
  case Nil
  then show ?case by auto
next
  case (Cons c cs)
  from Cons.prems have c: "column_ok c" and cs: "list_all column_ok cs" by simp_all
  from Cons.IH [OF cs, of "flush columns cur" "Some (norm_column c)"]
  obtain columns' cur' where
    a: "\<forall>rest. parse_lines (flush columns cur) (Some (norm_column c)) (concat (map column_lines cs) @ rest)
             = parse_lines columns' cur' rest"
    and b: "flush columns' cur' = flush (flush columns cur) (Some (norm_column c)) @ map norm_column cs"
    by blast
  have "\<forall>rest. parse_lines columns cur (concat (map column_lines (c # cs)) @ rest)
             = parse_lines columns' cur' rest"
    using a parse_lines_column [OF c, of columns cur] by simp
  moreover have "flush columns' cur' = flush columns cur @ map norm_column (c # cs)"
    using b by (simp add: flush_def)
  ultimately show ?case by blast
qed

lemma split_lines_id:
  "\<forall>l \<in> set ls. LF \<notin> set l \<Longrightarrow> concat (map (split_on LF) ls) = ls"
  by (induction ls) (simp_all add: split_on_no_sep)

lemma columns_lines_split:
  "list_all column_ok cs \<Longrightarrow>
   concat (map (split_on LF) (concat (map column_lines cs))) = concat (map column_lines cs)"
  using column_lines_LF by (intro split_lines_id) (auto simp: list_all_iff)

lemma parse_written_item_any_date:
  assumes pre: "list_all column_ok pre" and c: "column_ok c" and post: "list_all column_ok post"
    and t: "title_ok (title it)"
    and c0: "c0 \<in> set (pre @ [c\<lparr>items := items c @ [it]\<rparr>] @ post)" "holds (title it) c0"
  shows "\<exists>c1 \<in> set (parseBoardFile (Some (writeBoardFile (pre @ [c\<lparr>items := items c @ [it]\<rparr>] @ post)))).
           name c1 = name c0 \<and> holds (title it) c1"
proof -
  let ?c' = "c\<lparr>items := items c @ [it]\<rparr>"
  let ?cs = "pre @ [?c'] @ post"
  let ?PRE = "concat (map column_lines pre)"
  let ?POST = "concat (map column_lines post)"
  define hdr where "hdr = ''## '' @ name c"
  define tailc where "tailc = (if name c = ''Done'' then [[], ''**Complete**''] else []) @ [[]]"
  from c have nok: "name_ok (name c)" and iok: "list_all item_ok (items c)"
    by (simp_all add: column_ok_def)
  from item_line_first [OF t] obtain l1 g i' where
    sp: "split_on LF (item_line it) = l1 # g" and mc: "match_column l1 = None"
    and mi: "match_item l1 = Some i'" and ti: "title i' = title it"
    by blast
  have hdrLF: "LF \<notin> set hdr"
    using nok not_term_LF [of "name c"] by (simp add: hdr_def name_ok_def)
  have itemsLF: "\<forall>l \<in> set (map item_line (items c)). LF \<notin> set l"
    using iok item_line_LF by (auto simp: list_all_iff)
  have tailLF: "\<forall>l \<in> set tailc. LF \<notin> set l" by (auto simp: tailc_def)
  have cl: "column_lines ?c' = [hdr, []] @ map item_line (items c) @ [item_line it] @ tailc"
    by (simp add: column_lines_def hdr_def tailc_def)
  have mid: "concat (map (split_on LF) (column_lines ?c'))
             = [hdr, []] @ map item_line (items c) @ (l1 # g) @ tailc"
    using hdrLF split_lines_id [OF itemsLF] split_lines_id [OF tailLF]
    by (simp add: cl sp split_on_no_sep)
  have lines: "split_on LF (matter_content (writeBoardFile ?cs))
               = [] # ?PRE @ ([hdr, []] @ map item_line (items c) @ (l1 # g) @ tailc) @ ?POST"
  proof -
    have "matter_content (writeBoardFile ?cs) = join [LF] ([] # concat (map column_lines ?cs))"
      unfolding writeBoardFile_def by (rule matter_content_written)
    moreover have "split_on LF (join [LF] ([] # concat (map column_lines ?cs)))
        = concat (map (split_on LF) ([] # concat (map column_lines ?cs)))"
      by (rule split_on_join_any) simp
    ultimately show ?thesis
      using columns_lines_split [OF pre] columns_lines_split [OF post] mid by simp
  qed
  from parse_lines_columns_state [OF pre, of "[]" None]
  obtain cols1 cur1 where
    s1: "\<forall>rest. parse_lines [] None (?PRE @ rest) = parse_lines cols1 cur1 rest"
    and f1: "flush cols1 cur1 = map norm_column pre"
    by (auto simp: flush_def)
  define c2 where "c2 = \<lparr>name = name c, items = map norm_item (items c) @ [i']\<rparr>"
  define rest2 where "rest2 = (g @ tailc) @ ?POST"
  have n: "match_column hdr = Some (name c)"
    unfolding hdr_def using nok by (rule match_column_written)
  have tr: "trim (name c) = name c" using nok by (simp add: name_ok_def)
  have "parse_lines cols1 cur1 (([hdr, []] @ map item_line (items c) @ (l1 # g) @ tailc) @ ?POST)
        = parse_lines (flush cols1 cur1) (Some \<lparr>name = name c, items = []\<rparr>)
            (map item_line (items c) @ l1 # rest2)"
    using n tr by (simp add: rest2_def)
  also have "\<dots> = parse_lines (flush cols1 cur1)
                      (Some \<lparr>name = name c, items = map norm_item (items c)\<rparr>) (l1 # rest2)"
    using parse_lines_items [OF iok, of "flush cols1 cur1" "\<lparr>name = name c, items = []\<rparr>" "l1 # rest2"]
    by simp
  also have "\<dots> = parse_lines (flush cols1 cur1) (Some c2) rest2"
    using mc mi by (simp add: c2_def)
  finally have s2: "parse_lines cols1 cur1 (([hdr, []] @ map item_line (items c) @ (l1 # g) @ tailc) @ ?POST)
        = parse_lines (map norm_column pre) (Some c2) rest2"
    by (simp add: f1)
  define X where "X = ([hdr, []] @ map item_line (items c) @ (l1 # g) @ tailc) @ ?POST"
  have "parseBoardFile (Some (writeBoardFile ?cs))
        = parse_lines [] None (split_on LF (matter_content (writeBoardFile ?cs)))"
    by (simp only: parseBoardFile_def option.case)
  also have "\<dots> = parse_lines [] None ([] # ?PRE @ X)"
    by (simp only: lines X_def)
  also have "\<dots> = parse_lines [] None (?PRE @ X)" by simp
  also have "\<dots> = parse_lines cols1 cur1 X" using s1 by blast
  also have "\<dots> = parse_lines (map norm_column pre) (Some c2) rest2"
    unfolding X_def by (rule s2)
  finally have result: "parseBoardFile (Some (writeBoardFile ?cs))
                = parse_lines (map norm_column pre) (Some c2) rest2" .
  from parse_lines_state [of "map norm_column pre" "Some c2" "g @ tailc"]
  obtain cols3 cur3 where
    s3: "parse_lines (map norm_column pre) (Some c2) rest2 = parse_lines cols3 cur3 ?POST"
    unfolding rest2_def by blast
  have tail: "parse_lines cols3 cur3 ?POST = flush cols3 cur3 @ map norm_column post"
    by (rule parse_lines_columns [OF post])
  have hn: "holds x (norm_column col) = holds x col" for x col
    by (auto simp: holds_def norm_column_def norm_item_def)
  have nn: "name (norm_column col) = name col" for col by (simp add: norm_column_def)
  let ?Q = "\<lambda>x. name x = name c0 \<and> holds (title it) x"
  have Qpush: "\<And>col i. ?Q col \<Longrightarrow> ?Q (col\<lparr>items := items col @ [i]\<rparr>)"
    by (auto simp: holds_def)
  from c0(1) consider "c0 \<in> set pre" | "c0 = ?c'" | "c0 \<in> set post" by auto
  then show ?thesis
  proof cases
    case 1
    then have "norm_column c0 \<in> set (flush (map norm_column pre) (Some c2))"
      by (simp add: flush_def)
    moreover have "?Q (norm_column c0)" using c0(2) by (simp add: hn nn)
    ultimately have "\<exists>x \<in> set (flush (map norm_column pre) (Some c2)). ?Q x"
      by blast
    from parse_lines_mono [of ?Q, OF Qpush this] show ?thesis
      unfolding result by simp
  next
    case 2
    have "?Q c2" by (simp add: 2 c2_def holds_def ti)
    then have "\<exists>x \<in> set (flush (map norm_column pre) (Some c2)). ?Q x"
      by (simp add: flush_def)
    from parse_lines_mono [of ?Q, OF Qpush this] show ?thesis
      unfolding result by simp
  next
    case 3
    with c0(2) have "norm_column c0 \<in> set (parse_lines cols3 cur3 ?POST)" "?Q (norm_column c0)"
      by (simp_all add: tail hn nn)
    then show ?thesis unfolding result s3 by blast
  qed
qed

lemma update_first_split:
  assumes "\<exists>c \<in> set columns. P c"
  shows "\<exists>pre c post. columns = pre @ c # post \<and> (\<forall>x \<in> set pre. \<not> P x) \<and> P c
           \<and> update_first P f columns = pre @ f c # post"
proof -
  from assms obtain pre c post where
    d: "columns = pre @ c # post" "P c" "\<forall>x \<in> set pre. \<not> P x"
    using split_list_first_prop [of columns P] by blast
  then have "update_first P f columns = pre @ f c # post"
    by (simp add: update_first_append)
  with d show ?thesis by blast
qed

lemma addToBoard_any_date:
  assumes b: "board_ok board" and t: "title_ok t"
    and fresh: "target_column st \<notin> set (holder_names t (parseBoardFile board))"
  shows "insert (target_column st) (set (holder_names t (parseBoardFile board)))
         \<subseteq> set (holder_names t (parseBoardFile (addToBoard board t st d)))"
proof -
  let ?cols = "parseBoardFile board"
  let ?T = "target_column st"
  let ?it = "\<lparr>title = t, completed = (st = Done \<or> st = Archived), date = d\<rparr>"
  note ok = board_ok_columns [OF b]
  have "\<exists>pre c post. addToBoard_columns t st d ?cols = pre @ [c\<lparr>items := items c @ [?it]\<rparr>] @ post
          \<and> list_all column_ok pre \<and> column_ok c \<and> list_all column_ok post"
  proof (cases "\<exists>c \<in> set ?cols. name c = ?T")
    case True
    from update_first_split [OF True, of "push_item t st d"] obtain pre c post where
      d: "?cols = pre @ c # post" "name c = ?T"
         "update_first (\<lambda>c. name c = ?T) (push_item t st d) ?cols = pre @ push_item t st d c # post"
      by blast
    from fresh d(1,2) have "\<not> holds t c" by (force simp: holder_names_def)
    then have "push_item t st d c = c\<lparr>items := items c @ [?it]\<rparr>"
      by (simp add: push_item_def holds_def)
    with d(3) True have "addToBoard_columns t st d ?cols = pre @ [c\<lparr>items := items c @ [?it]\<rparr>] @ post"
      by (simp add: addToBoard_columns_unfold)
    moreover from ok d(1) have "list_all column_ok pre" "column_ok c" "list_all column_ok post"
      by simp_all
    ultimately show ?thesis by blast
  next
    case False
    let ?c = "\<lparr>name = ?T, items = []\<rparr>"
    have "push_item t st d ?c = ?c\<lparr>items := items ?c @ [?it]\<rparr>"
      by (simp add: push_item_def)
    with False have e: "addToBoard_columns t st d ?cols = ?cols @ [?c\<lparr>items := items ?c @ [?it]\<rparr>] @ []"
      by (simp add: addToBoard_columns_unfold)
    have cok: "column_ok ?c" using name_ok_target [of st] by (simp add: column_ok_def)
    have "list_all column_ok ([] :: BoardColumn list)" by simp
    with e ok cok show ?thesis by blast
  qed
  then obtain pre c post where
    d: "addToBoard_columns t st d ?cols = pre @ [c\<lparr>items := items c @ [?it]\<rparr>] @ post"
    and oks: "list_all column_ok pre" "column_ok c" "list_all column_ok post"
    by blast
  have t': "title_ok (title ?it)" using t by simp
  have "n \<in> set (holder_names t (parseBoardFile (addToBoard board t st d)))"
    if "n \<in> set (holder_names t (addToBoard_columns t st d ?cols))" for n
  proof -
    from that obtain c0 where c0': "c0 \<in> set (addToBoard_columns t st d ?cols)"
      and c0: "holds t c0" "name c0 = n"
      by (auto simp: holder_names_def)
    from c0' have m: "c0 \<in> set (pre @ [c\<lparr>items := items c @ [?it]\<rparr>] @ post)"
      by (simp only: d)
    from parse_written_item_any_date [OF oks t' m] c0(1)
    obtain c1 where "c1 \<in> set (parseBoardFile (Some (writeBoardFile (pre @ [c\<lparr>items := items c @ [?it]\<rparr>] @ post))))"
      "name c1 = name c0" "holds t c1"
      by auto
    then have "c1 \<in> set (parseBoardFile (addToBoard board t st d))"
      by (simp only: addToBoard_def d)
    with \<open>name c1 = name c0\<close> \<open>holds t c1\<close> c0(2) show ?thesis
      by (auto simp: holder_names_def)
  qed
  then show ?thesis
    using add_columns_fresh [OF fresh, of d] by blast
qed

section \<open>The duplicate guard of the add primitive, for any date\<close>

text \<open>
  Claim C9 (as amended). The duplicate guard of the add primitive looks at the target
  column only: for every well-formed board file on which a title is held, but by no
  column with the name the status maps to, the add with that title and status, and
  with any due date, leaves the title in every column that held it and puts it into
  the target column as well, so that columns of at least two different names hold the
  title at once. When the due date is one the board grammar can represent, or absent,
  exactly one item is inserted: the number of items with the title grows by one, the
  number of columns that hold it grows by one, and these columns are the former ones
  and the target column.
\<close>

theorem C9_guard_is_per_column:
  assumes "board_ok board"
    and "holder_names t (parseBoardFile board) \<noteq> []"
    and "target_column st \<notin> set (holder_names t (parseBoardFile board))"
  shows "target_column st \<in> set (holder_names t (parseBoardFile (addToBoard board t st d)))
       \<and> set (holder_names t (parseBoardFile board))
           \<subseteq> set (holder_names t (parseBoardFile (addToBoard board t st d)))
       \<and> (\<exists>n. n \<in> set (holder_names t (parseBoardFile (addToBoard board t st d)))
              \<and> n \<noteq> target_column st)
       \<and> (date_ok d \<longrightarrow>
             count_on_board t (parseBoardFile (addToBoard board t st d))
               = count_on_board t (parseBoardFile board) + 1
           \<and> length (holder_names t (parseBoardFile (addToBoard board t st d)))
               = length (holder_names t (parseBoardFile board)) + 1
           \<and> set (holder_names t (parseBoardFile (addToBoard board t st d)))
               = insert (target_column st) (set (holder_names t (parseBoardFile board))))"
proof -
  note tok = held_title_ok [OF assms(2)]
  note any = addToBoard_any_date [OF assms(1) tok assms(3), of d]
  from assms(2) obtain n where n: "n \<in> set (holder_names t (parseBoardFile board))"
    by (cases "holder_names t (parseBoardFile board)") auto
  with assms(3) have "n \<noteq> target_column st" by auto
  with n any have two: "\<exists>n. n \<in> set (holder_names t (parseBoardFile (addToBoard board t st d)))
              \<and> n \<noteq> target_column st"
    by blast
  have exact: "count_on_board t (parseBoardFile (addToBoard board t st d))
               = count_on_board t (parseBoardFile board) + 1
           \<and> length (holder_names t (parseBoardFile (addToBoard board t st d)))
               = length (holder_names t (parseBoardFile board)) + 1
           \<and> set (holder_names t (parseBoardFile (addToBoard board t st d)))
               = insert (target_column st) (set (holder_names t (parseBoardFile board)))"
    if d: "date_ok d"
  proof -
    have p: "parseBoardFile (addToBoard board t st d)
           = addToBoard_columns t st (norm_date d) (parseBoardFile board)"
      using assms(1) tok d by (rule parse_addToBoard)
    from add_columns_fresh [OF assms(3), of "norm_date d"] show ?thesis
      unfolding p by simp
  qed
  from any two exact show ?thesis by blast
qed

theorem C9_guard_is_per_column_witness:
  "board_ok (Some example_board)
   \<and> holder_names ''Call Ann'' (parseBoardFile (Some example_board)) \<noteq> []
   \<and> target_column Next \<notin> set (holder_names ''Call Ann'' (parseBoardFile (Some example_board)))
   \<and> date_ok None
   \<and> count_on_board ''Call Ann'' (parseBoardFile (addToBoard (Some example_board) ''Call Ann'' Next None)) = 2
   \<and> set (holder_names ''Call Ann'' (parseBoardFile (addToBoard (Some example_board) ''Call Ann'' Next None)))
       = {''Next'', ''Backlog''}"
proof -
  have d: "date_ok None" by code_simp
  have h: "holder_names ''Call Ann'' (parseBoardFile (Some example_board)) = [''Backlog'']" by code_simp
  have c: "count_on_board ''Call Ann'' (parseBoardFile (Some example_board)) = 1" by code_simp
  have h1: "holder_names ''Call Ann'' (parseBoardFile (Some example_board)) \<noteq> []"
    and h2: "target_column Next \<notin> set (holder_names ''Call Ann'' (parseBoardFile (Some example_board)))"
    unfolding h by (simp_all add: target_column_def)
  from C9_guard_is_per_column [OF example_ok h1 h2, of None] d
  have "count_on_board ''Call Ann'' (parseBoardFile (addToBoard (Some example_board) ''Call Ann'' Next None)) = 2"
    and "set (holder_names ''Call Ann'' (parseBoardFile (addToBoard (Some example_board) ''Call Ann'' Next None)))
       = {''Next'', ''Backlog''}"
    unfolding h c by (simp_all add: target_column_def)
  with example_ok d h1 h2 show ?thesis by (intro conjI)
qed

text \<open>
  The claim as stated fails on a board whose header has a blank name: the parser reads
  a column with the empty name that holds the title, the add pushes the title into a
  new Backlog column, and in the file written the blank header is no header any more,
  so its item belongs to no column: one column holds the title, not two.
\<close>

theorem C9_counterexample:
  "holder_names ''A'' (parseBoardFile (Some (join [LF] [''##  '', ''- [ ] [[A]]'']))) = [[]]
   \<and> target_column Backlog \<notin> set (holder_names ''A'' (parseBoardFile (Some (join [LF] [''##  '', ''- [ ] [[A]]'']))))
   \<and> holder_names ''A'' (parseBoardFile (addToBoard (Some (join [LF] [''##  '', ''- [ ] [[A]]''])) ''A'' Backlog None))
       = [''Backlog'']
   \<and> count_on_board ''A'' (parseBoardFile (addToBoard (Some (join [LF] [''##  '', ''- [ ] [[A]]''])) ''A'' Backlog None)) = 1"
  by code_simp

end
